theory Spec2Isabelle
  imports Main "HOL-Library.Word" "HOL-Library.Signed_Division"
begin

unbundle bit_operations_syntax

section \<open>Data model (cpu_specs.h, types.h)\<close>

text \<open>
  The sources hold two revisions of \<open>cpu_specs.c\<close>. The functions below follow the one
  that has \<open>cpuid_is_available\<close>, \<open>update_inst_availability\<close> and the static initialisers
  of the two globals; the other revision queries unconditionally, ORs the flags in and
  differs in the names of the topology and cache functions, not in their bodies.

  The library targets x86 and x64 only. \<open>s32\<close> and \<open>u32\<close> are 32-bit words; the
  signedness of a C operand shows in the operation chosen for it: \<open>>>\<close> on an \<open>s32\<close> is
  \<open>signed_drop_bit\<close> (arithmetic shift), \<open>/\<close> is \<open>s32_div\<close> (truncating), \<open><=\<close> is
  \<open>word_sle\<close>; comparisons of the \<open>u32\<close> leaf maxima are the unsigned order of words.
  \<open>+\<close>, \<open>-\<close>, \<open>*\<close> on words wrap around (two's complement), as the x86 targets compute them.
\<close>

type_synonym s32 = "32 word"
type_synonym u32 = "32 word"
type_synonym schar8 = "8 word"

datatype cpuid_output_register = EAX | EBX | ECX | EDX

text \<open>\<open>s32 cpuid_out[4]\<close>, indexed with the enumerators above.\<close>

type_synonym cpuid_out = "cpuid_output_register \<Rightarrow> s32"

text \<open>
  The extern intrinsic \<open>__cpuidex(out, func, sub_func)\<close>: the register values the
  processor reports for a (leaf, subleaf) pair.
\<close>

type_synonym cpuid_hw = "s32 \<Rightarrow> s32 \<Rightarrow> cpuid_out"

definition CPU_MANUFACTURER_AMD :: s32 where
  "CPU_MANUFACTURER_AMD = 0x444D4163"

definition CPU_MANUFACTURER_INTEL :: s32 where
  "CPU_MANUFACTURER_INTEL = 0x6C65746E"

datatype cache_level = L1 | L2 | L3

text \<open>
  An \<open>s32\<close> array index into \<open>cache_level_specs[CACHE_LEVEL_COUNT]\<close>: \<open>None\<close> when the
  index is outside the array.
\<close>

definition CACHE_LEVEL_COUNT :: s32 where
  "CACHE_LEVEL_COUNT = 3"

definition cache_level_of_index :: "s32 \<Rightarrow> cache_level option" where
  "cache_level_of_index idx =
     (if idx = 0 then Some L1
      else if idx = 1 then Some L2
      else if idx = 2 then Some L3
      else None)"

definition SSE1 :: s32 where "SSE1 = push_bit 0 1"
definition SSE2 :: s32 where "SSE2 = push_bit 1 1"
definition SSE3 :: s32 where "SSE3 = push_bit 2 1"
definition SSSE3 :: s32 where "SSSE3 = push_bit 3 1"
definition SSE4_1 :: s32 where "SSE4_1 = push_bit 4 1"
definition SSE4_2 :: s32 where "SSE4_2 = push_bit 5 1"
definition AVX1 :: s32 where "AVX1 = push_bit 6 1"
definition AVX2 :: s32 where "AVX2 = push_bit 7 1"
definition FMA3 :: s32 where "FMA3 = push_bit 8 1"
definition AVX512F :: s32 where "AVX512F = push_bit 9 1"
definition POPCNT :: s32 where "POPCNT = push_bit 10 1"
definition LZCNT :: s32 where "LZCNT = push_bit 11 1"
definition TZCNT :: s32 where "TZCNT = push_bit 12 1"
definition BMI1 :: s32 where "BMI1 = push_bit 13 1"
definition BMI2 :: s32 where "BMI2 = push_bit 14 1"
definition TBM :: s32 where "TBM = push_bit 15 1"
definition RDTSCP :: s32 where "RDTSCP = push_bit 16 1"
definition F16C :: s32 where "F16C = push_bit 17 1"

record cpuid_ctx =
  max_standard_func :: u32
  max_extended_func :: u32

record cpu_cache_level_specs =
  data_cache_size :: s32
  attached_core_count :: s32

record cpu_specs =
  cache_level_specs :: "cache_level \<Rightarrow> cpu_cache_level_specs"
  cache_line_size :: s32
  threads_per_core :: s32
  core_count :: s32
  instructions :: s32

record cpu_identity =
  family :: s32
  model :: s32
  stepping :: s32
  manufacturer :: "schar8 list"
  name :: "schar8 list"

text \<open>
  What the C code leaves undefined and the model records as a fault: a division whose
  divisor is zero, a store through an index outside \<open>cache_level_specs\<close>, and the
  subleaf counter \<open>subfunc++\<close> passing the largest \<open>s32\<close>.
\<close>

datatype fault = DivideByZero | IndexOutOfBounds | SignedOverflow

section \<open>Helpers\<close>

definition KiB :: "s32 \<Rightarrow> s32" where
  "KiB x = x * 1024"

definition s32_div :: "s32 \<Rightarrow> s32 \<Rightarrow> s32" where
  "s32_div a b = word_of_int (sint a sdiv sint b)"

definition update_inst_availability :: "s32 \<Rightarrow> s32 \<Rightarrow> s32 \<Rightarrow> s32 \<Rightarrow> s32" where
  "update_inst_availability instrs flags flag_bit feature_mask =
     (let isolated_bit = signed_drop_bit (unat flag_bit) flags AND 1;
          xor_mask     = (- isolated_bit XOR instrs) AND feature_mask
      in instrs XOR xor_mask)"

text \<open>The two field stores through \<open>cache_level_spec->\<close>.\<close>

definition store_data_cache_size :: "cache_level \<Rightarrow> s32 \<Rightarrow> cpu_specs \<Rightarrow> cpu_specs" where
  "store_data_cache_size l v s =
     s\<lparr>cache_level_specs := (cache_level_specs s)(l := (cache_level_specs s l)\<lparr>data_cache_size := v\<rparr>)\<rparr>"

definition store_attached_core_count :: "cache_level \<Rightarrow> s32 \<Rightarrow> cpu_specs \<Rightarrow> cpu_specs" where
  "store_attached_core_count l v s =
     s\<lparr>cache_level_specs := (cache_level_specs s)(l := (cache_level_specs s l)\<lparr>attached_core_count := v\<rparr>)\<rparr>"

section \<open>Globals\<close>

text \<open>
  The build configuration of \<open>isa.h\<close> (not part of the sources at hand) is a parameter:
  exactly one of \<open>ISA_x64\<close> and \<open>ISA_x86\<close> is defined.
\<close>

datatype isa = ISA_x64 | ISA_x86

definition cpu_specs_static :: "isa \<Rightarrow> cpu_specs" where
  "cpu_specs_static target =
     \<lparr>cache_level_specs =
        (\<lambda>l. case l of
           L1 \<Rightarrow> \<lparr>data_cache_size = KiB 4, attached_core_count = 1\<rparr>
         | L2 \<Rightarrow> \<lparr>data_cache_size = 0, attached_core_count = 0\<rparr>
         | L3 \<Rightarrow> \<lparr>data_cache_size = 0, attached_core_count = 0\<rparr>),
      cache_line_size = 64,
      threads_per_core = 1,
      core_count = 1,
      instructions = (case target of ISA_x64 \<Rightarrow> SSE1 OR SSE2 | ISA_x86 \<Rightarrow> 0)\<rparr>"

text \<open>
  A \<open>schar8\<close> array of \<open>n\<close> bytes initialised from a string literal: the characters,
  then zero bytes up to \<open>n\<close>.
\<close>

definition char_array :: "nat \<Rightarrow> string \<Rightarrow> schar8 list" where
  "char_array n str = map (\<lambda>c. of_nat (of_char c)) str @ replicate (n - length str) 0"

definition cpu_identity_static :: cpu_identity where
  "cpu_identity_static =
     \<lparr>family = 0, model = 0, stepping = 0,
      manufacturer = char_array 12 ''Unknown'',
      name = char_array 48 ''Unknown''\<rparr>"

section \<open>AMD functions\<close>

definition cpu_specs_amd_get_cores_info :: "cpuid_hw \<Rightarrow> cpuid_ctx \<Rightarrow> cpu_specs \<Rightarrow> fault + cpu_specs" where
  "cpu_specs_amd_get_cores_info cpuidex ctx s =
     (if 0xB \<le> max_standard_func ctx then
        let cpuid_out = cpuidex 0xB 0;
            s1 = s\<lparr>threads_per_core := cpuid_out EBX AND 0xFFFF\<rparr>;
            cpuid_out = cpuidex 0xB 1;
            total_thread_count = cpuid_out EBX AND 0xFFFF
        in if threads_per_core s1 = 0 then Inl DivideByZero
           else Inr (s1\<lparr>core_count := s32_div total_thread_count (threads_per_core s1)\<rparr>)
      else
        let cpuid_out = cpuidex 1 0;
            hyperthreaded = signed_drop_bit 28 (cpuid_out EDX) AND 1;
            s1 = s\<lparr>threads_per_core := hyperthreaded + 1\<rparr>
        in if 0x80000008 \<le> max_extended_func ctx then
             let cpuid_out = cpuidex 0x80000008 0;
                 total_thread_count = (cpuid_out ECX AND 0xFF) + 1
             in Inr (s1\<lparr>core_count := signed_drop_bit (unat hyperthreaded) total_thread_count\<rparr>)
           else if hyperthreaded \<noteq> 0 then
             let total_thread_count = signed_drop_bit 16 (cpuid_out EBX) AND 0xFF;
                 core_count_local   = signed_drop_bit 1 total_thread_count
             in if 0x80000001 \<le> max_extended_func ctx then
                  let cpuid_out = cpuidex 0x80000001 0
                  in if cpuid_out ECX AND push_bit 1 1 \<noteq> 0
                     then Inr (s1\<lparr>core_count := core_count_local\<rparr>)
                     else Inr s1
                else Inr (s1\<lparr>core_count := core_count_local\<rparr>)
           else Inr s1)"

text \<open>
  The body of the \<open>if (cpuid_out[EAX] & 0x1)\<close> block of the leaf-0x8000001D loop: one data
  or unified cache descriptor. The store of \<open>data_cache_size\<close> through
  \<open>&cpu_specs.cache_level_specs[cache_idx]\<close> comes before the division.
\<close>

definition amd_cache_descriptor :: "cpuid_out \<Rightarrow> cpu_specs \<Rightarrow> fault + cpu_specs" where
  "amd_cache_descriptor cpuid_out s =
     (let cache_level      = signed_drop_bit 5 (cpuid_out EAX) AND 3;
          cache_set_ways   = signed_drop_bit 22 (cpuid_out EBX) + 1;
          cache_partitions = (signed_drop_bit 12 (cpuid_out EBX) AND 0x3FF) + 1;
          cache_set_count  = cpuid_out ECX + 1;
          cache_line_count = cache_partitions * cache_set_ways * cache_set_count;
          cache_idx        = cache_level - 1
      in case cache_level_of_index cache_idx of
           None \<Rightarrow> Inl IndexOutOfBounds
         | Some l \<Rightarrow>
             let s1 = store_data_cache_size l (cache_line_count * cache_line_size s) s;
                 attached_thread_count = (signed_drop_bit 14 (cpuid_out EAX) AND 0xFFF) + 1
             in if threads_per_core s1 = 0 then Inl DivideByZero
                else Inr (store_attached_core_count l
                            (s32_div attached_thread_count (threads_per_core s1)) s1))"

text \<open>
  The \<open>do ... while\<close> loop over the subleaves of leaf 0x8000001D. On entry \<open>cpuid_out\<close>
  holds the registers of subleaf \<open>subfunc\<close>, which is \<open>cpuidex 0x8000001D subfunc\<close>.
\<close>

function amd_caches_loop :: "cpuid_hw \<Rightarrow> s32 \<Rightarrow> cpu_specs \<Rightarrow> fault + cpu_specs" where
  "amd_caches_loop cpuidex subfunc s =
     (let cpuid_out = cpuidex 0x8000001D subfunc
      in case (if cpuid_out EAX AND 1 \<noteq> 0 then amd_cache_descriptor cpuid_out s else Inr s) of
           Inl e \<Rightarrow> Inl e
         | Inr s1 \<Rightarrow>
             if subfunc = 0x7FFFFFFF then Inl SignedOverflow
             else if cpuidex 0x8000001D (subfunc + 1) EAX AND 0xF \<noteq> 0
                  then amd_caches_loop cpuidex (subfunc + 1) s1
                  else Inr s1)"
  by pat_completeness auto
termination
proof (relation "measure (\<lambda>(cpuidex, subfunc, s). unat (0x7FFFFFFF - subfunc))")
  fix cpuidex :: cpuid_hw and subfunc :: s32 and s s1 :: cpu_specs
  assume "subfunc \<noteq> 0x7FFFFFFF"
  then have step: "a - subfunc \<noteq> 0" if "a = 0x7FFFFFFF" for a
    using that by simp
  have e: "a - (subfunc + 1) = a - subfunc - 1" for a
    by (simp add: algebra_simps)
  have "unat (a - (subfunc + 1)) = unat (a - subfunc) - 1" if "a = 0x7FFFFFFF" for a
    unfolding e using step [OF that] by (rule unat_minus_one)
  moreover have "unat (a - subfunc) \<noteq> 0" if "a = 0x7FFFFFFF" for a
    using step [OF that] by (simp add: unat_eq_0)
  ultimately have "unat (a - (subfunc + 1)) < unat (a - subfunc)" if "a = 0x7FFFFFFF" for a
    using that by (metis diff_less not_gr_zero zero_less_one)
  then show "((cpuidex, subfunc + 1, s1), (cpuidex, subfunc, s))
      \<in> measure (\<lambda>(cpuidex, subfunc, s). unat (0x7FFFFFFF - subfunc))"
    by simp
qed simp

definition cpu_specs_amd_get_caches_info :: "cpuid_hw \<Rightarrow> cpuid_ctx \<Rightarrow> cpu_specs \<Rightarrow> fault + cpu_specs" where
  "cpu_specs_amd_get_caches_info cpuidex ctx s =
     (if 0x8000001D \<le> max_extended_func ctx then
        let cpuid_out = cpuidex 0x80000001 0;
            topology_extensions_supported = cpuid_out ECX AND push_bit 22 1
        in if topology_extensions_supported \<noteq> 0 then
             let subfunc = 0;
                 cpuid_out = cpuidex 0x8000001D subfunc;
                 s1 = s\<lparr>cache_line_size := (cpuid_out EBX AND 0x7F) + 1\<rparr>
             in amd_caches_loop cpuidex subfunc s1
           else Inr s
      else if 0x80000005 \<le> max_extended_func ctx then
        let cpuid_out = cpuidex 0x80000005 0;
            s1 = s\<lparr>cache_line_size := cpuid_out ECX AND 0xFF\<rparr>;
            s2 = store_data_cache_size L1 ((signed_drop_bit 24 (cpuid_out ECX) AND 0xFF) * KiB 1) s1;
            s3 = store_attached_core_count L1 1 s2
        in if 0x80000006 \<le> max_extended_func ctx then
             let cpuid_out = cpuidex 0x80000006 0;
                 s4 = store_data_cache_size L2 ((signed_drop_bit 16 (cpuid_out ECX) AND 0xFFFF) * KiB 1) s3;
                 s5 = store_attached_core_count L2 1 s4;
                 s6 = store_data_cache_size L3 ((signed_drop_bit 18 (cpuid_out EDX) AND 0x3FFFF) * KiB 512) s5;
                 s7 = store_attached_core_count L3 (core_count s6) s6
             in Inr s7
           else Inr s3
      else Inr s)"

definition cpu_specs_amd_get_instructions :: "cpuid_hw \<Rightarrow> cpuid_ctx \<Rightarrow> cpu_specs \<Rightarrow> cpu_specs" where
  "cpu_specs_amd_get_instructions cpuidex ctx s =
     (let s1 = (if 0xB \<le> max_standard_func ctx then
                  let cpuid_out = cpuidex 0xD 5;
                      avx512_available =
                        (if cpuid_out EAX = 0x40 \<and> cpuid_out EBX = 0x340 then 1 else 0 :: s32)
                  in s\<lparr>instructions :=
                         instructions s XOR ((- avx512_available XOR instructions s) AND AVX512F)\<rparr>
                else s)
      in if 0xB \<le> max_extended_func ctx then
           let cpuid_out = cpuidex 0x80000001 0
           in s1\<lparr>instructions := update_inst_availability (instructions s1) (cpuid_out ECX) 21 TBM\<rparr>
         else s1)"

section \<open>Intel functions\<close>

definition cpu_specs_intel_get_cores_info :: "cpuid_hw \<Rightarrow> cpuid_ctx \<Rightarrow> cpu_specs \<Rightarrow> fault + cpu_specs" where
  "cpu_specs_intel_get_cores_info cpuidex ctx s =
     (if 0xB \<le> max_standard_func ctx then
        let higher_func = (if 0x1F \<le> max_standard_func ctx then 0x1F else 0xB);
            cpuid_out = cpuidex higher_func 0;
            s1 = s\<lparr>threads_per_core := cpuid_out EBX AND 0xFFFF\<rparr>;
            cpuid_out = cpuidex higher_func 1;
            total_thread_count = cpuid_out EBX AND 0xFFFF
        in if threads_per_core s1 = 0 then Inl DivideByZero
           else Inr (s1\<lparr>core_count := s32_div total_thread_count (threads_per_core s1)\<rparr>)
      else
        let cpuid_out = cpuidex 1 0;
            hyperthreaded = signed_drop_bit 28 (cpuid_out EDX) AND 1;
            s1 = s\<lparr>threads_per_core := hyperthreaded + 1\<rparr>
        in if hyperthreaded \<noteq> 0 then
             let total_thread_count = signed_drop_bit 16 (cpuid_out EBX) AND 0xFF
             in if threads_per_core s1 = 0 then Inl DivideByZero
                else Inr (s1\<lparr>core_count := s32_div total_thread_count (threads_per_core s1)\<rparr>)
           else Inr s1)"

text \<open>
  The body of the \<open>if (cpuid_out[EAX] & 0b1)\<close> block of the leaf-4 loop. As in the AMD
  decoder, the store of \<open>data_cache_size\<close> comes before the division.
\<close>

definition intel_cache_descriptor :: "cpuid_out \<Rightarrow> cpu_specs \<Rightarrow> fault + cpu_specs" where
  "intel_cache_descriptor cpuid_out s =
     (let cache_level      = signed_drop_bit 5 (cpuid_out EAX) AND 3;
          cache_set_ways   = signed_drop_bit 22 (cpuid_out EBX) + 1;
          cache_partitions = (signed_drop_bit 12 (cpuid_out EBX) AND 0x3FF) + 1;
          cache_set_count  = cpuid_out ECX + 1;
          cache_line_count = cache_partitions * cache_set_ways * cache_set_count;
          cache_idx        = cache_level - 1
      in case cache_level_of_index cache_idx of
           None \<Rightarrow> Inl IndexOutOfBounds
         | Some l \<Rightarrow>
             let s1 = store_data_cache_size l (cache_line_count * cache_line_size s) s;
                 max_attached_thread_count = (signed_drop_bit 14 (cpuid_out EAX) AND 0xFFF) + 1
             in if threads_per_core s1 = 0 then Inl DivideByZero
                else
                  let max_attached_core_count =
                        s32_div max_attached_thread_count (threads_per_core s1)
                  in if max_attached_core_count <=s core_count s1
                     then Inr (store_attached_core_count l max_attached_core_count s1)
                     else Inr (store_attached_core_count l (core_count s1) s1))"

text \<open>
  The \<open>while\<close> loop over the subleaves of leaf 4. On entry \<open>cpuid_out\<close> holds the
  registers of subleaf \<open>subfunc\<close>, which is \<open>cpuidex 4 subfunc\<close>.
\<close>

function intel_caches_loop :: "cpuid_hw \<Rightarrow> s32 \<Rightarrow> cpu_specs \<Rightarrow> fault + cpu_specs" where
  "intel_caches_loop cpuidex subfunc s =
     (let cpuid_out = cpuidex 4 subfunc
      in if cpuid_out EAX AND 0xF \<noteq> 0 then
           case (if cpuid_out EAX AND 1 \<noteq> 0 then intel_cache_descriptor cpuid_out s else Inr s) of
             Inl e \<Rightarrow> Inl e
           | Inr s1 \<Rightarrow>
               if subfunc = 0x7FFFFFFF then Inl SignedOverflow
               else intel_caches_loop cpuidex (subfunc + 1) s1
         else Inr s)"
  by pat_completeness auto
termination
proof (relation "measure (\<lambda>(cpuidex, subfunc, s). unat (0x7FFFFFFF - subfunc))")
  fix cpuidex :: cpuid_hw and subfunc :: s32 and s s1 :: cpu_specs
  assume "subfunc \<noteq> 0x7FFFFFFF"
  then have step: "a - subfunc \<noteq> 0" if "a = 0x7FFFFFFF" for a
    using that by simp
  have e: "a - (subfunc + 1) = a - subfunc - 1" for a
    by (simp add: algebra_simps)
  have "unat (a - (subfunc + 1)) = unat (a - subfunc) - 1" if "a = 0x7FFFFFFF" for a
    unfolding e using step [OF that] by (rule unat_minus_one)
  moreover have "unat (a - subfunc) \<noteq> 0" if "a = 0x7FFFFFFF" for a
    using step [OF that] by (simp add: unat_eq_0)
  ultimately have "unat (a - (subfunc + 1)) < unat (a - subfunc)" if "a = 0x7FFFFFFF" for a
    using that by (metis diff_less not_gr_zero zero_less_one)
  then show "((cpuidex, subfunc + 1, s1), (cpuidex, subfunc, s))
      \<in> measure (\<lambda>(cpuidex, subfunc, s). unat (0x7FFFFFFF - subfunc))"
    by simp
qed simp

definition cpu_specs_intel_get_caches_info :: "cpuid_hw \<Rightarrow> cpuid_ctx \<Rightarrow> cpu_specs \<Rightarrow> fault + cpu_specs" where
  "cpu_specs_intel_get_caches_info cpuidex ctx s =
     (if 0x4 \<le> max_standard_func ctx then
        let subfunc = 0;
            cpuid_out = cpuidex 0x4 subfunc;
            s1 = s\<lparr>cache_line_size := (cpuid_out EBX AND 0x7F) + 1\<rparr>
        in intel_caches_loop cpuidex subfunc s1
      else Inr s)"

definition cpu_specs_intel_get_instructions :: "cpuid_hw \<Rightarrow> cpuid_ctx \<Rightarrow> cpu_specs \<Rightarrow> cpu_specs" where
  "cpu_specs_intel_get_instructions cpuidex ctx s =
     (if 0x7 \<le> max_standard_func ctx then
        let cpuid_out = cpuidex 0x7 0
        in s\<lparr>instructions := update_inst_availability (instructions s) (cpuid_out EBX) 16 AVX512F\<rparr>
      else s)"

section \<open>CPU-independent functions\<close>

definition cpu_specs_get_common_instructions :: "cpuid_hw \<Rightarrow> cpuid_ctx \<Rightarrow> cpu_specs \<Rightarrow> cpu_specs" where
  "cpu_specs_get_common_instructions cpuidex ctx s =
     (let cpuid_out = cpuidex 0x1 0;
          instrs = instructions s;
          instrs = update_inst_availability instrs (cpuid_out EDX) 4 RDTSCP;
          instrs = update_inst_availability instrs (cpuid_out EDX) 25 SSE1;
          instrs = update_inst_availability instrs (cpuid_out EDX) 26 SSE2;
          instrs = update_inst_availability instrs (cpuid_out ECX) 0 SSE3;
          instrs = update_inst_availability instrs (cpuid_out ECX) 9 SSSE3;
          instrs = update_inst_availability instrs (cpuid_out ECX) 12 FMA3;
          instrs = update_inst_availability instrs (cpuid_out ECX) 19 SSE4_1;
          instrs = update_inst_availability instrs (cpuid_out ECX) 20 SSE4_2;
          instrs = update_inst_availability instrs (cpuid_out ECX) 23 POPCNT;
          instrs = update_inst_availability instrs (cpuid_out ECX) 28 AVX1;
          instrs = update_inst_availability instrs (cpuid_out ECX) 29 F16C;
          instrs =
            (if 0x7 \<le> max_standard_func ctx then
               let cpuid_out = cpuidex 0x7 0;
                   instrs = update_inst_availability instrs (cpuid_out EBX) 3 BMI1;
                   instrs = update_inst_availability instrs (cpuid_out EBX) 3 TZCNT;
                   instrs = update_inst_availability instrs (cpuid_out EBX) 5 AVX2;
                   instrs = update_inst_availability instrs (cpuid_out EBX) 8 BMI2
               in if 0x80000001 \<le> max_extended_func ctx then
                    let cpuid_out = cpuidex 0x80000001 0
                    in update_inst_availability instrs (cpuid_out ECX) 5 LZCNT
                  else instrs
             else instrs)
      in s\<lparr>instructions := instrs\<rparr>)"

section \<open>CPUID context\<close>

text \<open>
  \<open>cpuid_is_available()\<close> reads and writes the flags register through two extern
  intrinsics; the value it returns is the parameter \<open>available\<close> of the functions below.

  \<open>cpuid_ctx_get\<close> is a public entry point of its own. It is modelled on the whole
  program state, the two globals together with the list of (leaf, subleaf) pairs passed
  to \<open>__cpuidex\<close> so far, so that what it leaves alone can be stated.
\<close>

record program_state =
  specs_global :: cpu_specs
  identity_global :: cpu_identity
  cpuid_queries :: "(s32 \<times> s32) list"

definition cpuidex_recorded ::
    "cpuid_hw \<Rightarrow> s32 \<Rightarrow> s32 \<Rightarrow> program_state \<Rightarrow> cpuid_out \<times> program_state" where
  "cpuidex_recorded cpuidex func sub_func p =
     (cpuidex func sub_func, p\<lparr>cpuid_queries := cpuid_queries p @ [(func, sub_func)]\<rparr>)"

definition cpuid_ctx_get :: "bool \<Rightarrow> cpuid_hw \<Rightarrow> program_state \<Rightarrow> cpuid_ctx \<times> program_state" where
  "cpuid_ctx_get available cpuidex p =
     (let ctx = \<lparr>max_standard_func = 0, max_extended_func = 0\<rparr>
      in if available then
           let (cpuid_out, p) = cpuidex_recorded cpuidex 0x0 0x0 p;
               ctx = ctx\<lparr>max_standard_func := cpuid_out EAX\<rparr>;
               (cpuid_out, p) = cpuidex_recorded cpuidex 0x80000000 0x0 p;
               ctx = ctx\<lparr>max_extended_func := cpuid_out EAX\<rparr>
           in (ctx, p)
         else (ctx, p))"

section \<open>CPU specs\<close>

definition cpu_specs_init :: "bool \<Rightarrow> cpuid_hw \<Rightarrow> cpu_specs \<Rightarrow> fault + cpu_specs" where
  "cpu_specs_init available cpuidex s =
     (if available then
        let ctx = \<lparr>max_standard_func = cpuidex 0x0 0x0 EAX,
                   max_extended_func = cpuidex 0x80000000 0x0 EAX\<rparr>;
            s1 = cpu_specs_get_common_instructions cpuidex ctx s;
            cpu_manufacturer_ecx = cpuidex 0x0 0x0 ECX
        in if cpu_manufacturer_ecx = CPU_MANUFACTURER_AMD then
             case cpu_specs_amd_get_cores_info cpuidex ctx s1 of
               Inl e \<Rightarrow> Inl e
             | Inr s2 \<Rightarrow>
                 (case cpu_specs_amd_get_caches_info cpuidex ctx s2 of
                    Inl e \<Rightarrow> Inl e
                  | Inr s3 \<Rightarrow> Inr (cpu_specs_amd_get_instructions cpuidex ctx s3))
           else if cpu_manufacturer_ecx = CPU_MANUFACTURER_INTEL then
             case cpu_specs_intel_get_cores_info cpuidex ctx s1 of
               Inl e \<Rightarrow> Inl e
             | Inr s2 \<Rightarrow>
                 (case cpu_specs_intel_get_caches_info cpuidex ctx s2 of
                    Inl e \<Rightarrow> Inl e
                  | Inr s3 \<Rightarrow> Inr (cpu_specs_intel_get_instructions cpuidex ctx s3))
           else Inr s1
      else Inr s)"

section \<open>CPU identity\<close>

text \<open>
  The identity buffers are byte arrays that the code reads and writes through \<open>u32*\<close>
  and \<open>s32*\<close> casts. On x86 a 32-bit value occupies four bytes, least significant first.
\<close>

definition u32_bytes :: "u32 \<Rightarrow> schar8 list" where
  "u32_bytes w = [ucast w, ucast (drop_bit 8 w), ucast (drop_bit 16 w), ucast (drop_bit 24 w)]"

fun bytes_u32 :: "schar8 list \<Rightarrow> u32" where
  "bytes_u32 [] = 0"
| "bytes_u32 (b # bs) = ucast b OR push_bit 8 (bytes_u32 bs)"

text \<open>\<open>*(u32*)(buf + off) = w\<close> and \<open>*(s32*)(buf + off)\<close>.\<close>

definition store_u32 :: "nat \<Rightarrow> u32 \<Rightarrow> schar8 list \<Rightarrow> schar8 list" where
  "store_u32 off w buf = take off buf @ u32_bytes w @ drop (off + 4) buf"

definition load_s32 :: "nat \<Rightarrow> schar8 list \<Rightarrow> s32" where
  "load_s32 off buf = bytes_u32 (take 4 (drop off buf))"

text \<open>
  \<open>__cpuidex((s32*)(buf + off), func, 0)\<close>: the four registers stored in slot order
  \<open>EAX\<close>, \<open>EBX\<close>, \<open>ECX\<close>, \<open>EDX\<close> from offset \<open>off\<close>.
\<close>

definition store_cpuid_out :: "nat \<Rightarrow> cpuid_out \<Rightarrow> schar8 list \<Rightarrow> schar8 list" where
  "store_cpuid_out off cpuid_out buf =
     store_u32 (off + 12) (cpuid_out EDX)
       (store_u32 (off + 8) (cpuid_out ECX)
         (store_u32 (off + 4) (cpuid_out EBX)
           (store_u32 off (cpuid_out EAX) buf)))"

definition cpu_identity_init :: "bool \<Rightarrow> cpuid_hw \<Rightarrow> cpu_identity \<Rightarrow> cpu_identity" where
  "cpu_identity_init available cpuidex c =
     (if available then
        let cpuid_out = cpuidex 0x0 0x0;
            c = c\<lparr>manufacturer := store_u32 0 (cpuid_out EBX) (manufacturer c)\<rparr>;
            c = c\<lparr>manufacturer := store_u32 4 (cpuid_out EDX) (manufacturer c)\<rparr>;
            c = c\<lparr>manufacturer := store_u32 8 (cpuid_out ECX) (manufacturer c)\<rparr>;
            cpuid_out = cpuidex 0x1 0x0;
            family_model_stepping = cpuid_out EAX;
            c = c\<lparr>family := signed_drop_bit 8 family_model_stepping AND 0xF\<rparr>;
            c = c\<lparr>model := signed_drop_bit 4 family_model_stepping AND 0xF\<rparr>;
            c = c\<lparr>stepping := family_model_stepping AND 0xF\<rparr>;
            c = (if family c = 0xF then
                   let extended_family = signed_drop_bit 20 family_model_stepping AND 0xFF;
                       c = c\<lparr>family := family c + extended_family\<rparr>;
                       extended_model = signed_drop_bit 12 family_model_stepping AND 0xF0
                   in c\<lparr>model := model c OR extended_model\<rparr>
                 else c);
            manufacturer_ecx = load_s32 8 (manufacturer c);
            c = (if manufacturer_ecx = CPU_MANUFACTURER_INTEL \<and> family c = 0x6 then
                   let extended_model = signed_drop_bit 12 family_model_stepping AND 0xF0
                   in c\<lparr>model := model c OR extended_model\<rparr>
                 else c);
            cpuid_out = cpuidex 0x80000000 0x0;
            cpuid_max_extended_func = cpuid_out EAX
        in if 0x80000004 \<le> cpuid_max_extended_func then
             let c = c\<lparr>name := store_cpuid_out 0 (cpuidex 0x80000002 0x0) (name c)\<rparr>;
                 c = c\<lparr>name := store_cpuid_out 16 (cpuidex 0x80000003 0x0) (name c)\<rparr>;
                 c = c\<lparr>name := store_cpuid_out 32 (cpuidex 0x80000004 0x0) (name c)\<rparr>
             in c
           else c
      else c)"

text \<open>The sizes of the two buffers declared in \<open>struct cpu_identity\<close>.\<close>

definition cpu_identity_sized :: "cpu_identity \<Rightarrow> bool" where
  "cpu_identity_sized c \<longleftrightarrow> length (manufacturer c) = 12 \<and> length (name c) = 48"

section \<open>The descriptors the AMD cache loop reads\<close>

text \<open>
  The subleaves of leaf 0x8000001D that the \<open>do ... while\<close> loop visits when entered at
  \<open>subfunc\<close>: \<open>subfunc\<close> itself, then each following subleaf as long as the low four
  bits of its \<open>EAX\<close> are not zero. \<open>amd_descriptor_level\<close> is the array entry a visited
  subleaf is stored to, if it is a data or unified descriptor whose index is in range, and
  \<open>amd_last_descriptor\<close> the last visited subleaf stored to a given entry.
\<close>

function amd_subleaves_read :: "cpuid_hw \<Rightarrow> s32 \<Rightarrow> s32 list" where
  "amd_subleaves_read cpuidex subfunc =
     subfunc #
       (if subfunc = 0x7FFFFFFF then []
        else if cpuidex 0x8000001D (subfunc + 1) EAX AND 0xF \<noteq> 0
             then amd_subleaves_read cpuidex (subfunc + 1)
             else [])"
  by pat_completeness auto
termination
proof (relation "measure (\<lambda>(cpuidex, subfunc). unat (0x7FFFFFFF - subfunc))")
  fix cpuidex :: cpuid_hw and subfunc :: s32
  assume "subfunc \<noteq> 0x7FFFFFFF"
  then have step: "a - subfunc \<noteq> 0" if "a = 0x7FFFFFFF" for a
    using that by simp
  have e: "a - (subfunc + 1) = a - subfunc - 1" for a
    by (simp add: algebra_simps)
  have "unat (a - (subfunc + 1)) = unat (a - subfunc) - 1" if "a = 0x7FFFFFFF" for a
    unfolding e using step [OF that] by (rule unat_minus_one)
  moreover have "unat (a - subfunc) \<noteq> 0" if "a = 0x7FFFFFFF" for a
    using step [OF that] by (simp add: unat_eq_0)
  ultimately have "unat (a - (subfunc + 1)) < unat (a - subfunc)" if "a = 0x7FFFFFFF" for a
    using that by (metis diff_less not_gr_zero zero_less_one)
  then show "((cpuidex, subfunc + 1), (cpuidex, subfunc))
      \<in> measure (\<lambda>(cpuidex, subfunc). unat (0x7FFFFFFF - subfunc))"
    by simp
qed simp

definition amd_descriptor_level :: "cpuid_out \<Rightarrow> cache_level option" where
  "amd_descriptor_level out =
     (if out EAX AND 1 \<noteq> 0
      then cache_level_of_index ((signed_drop_bit 5 (out EAX) AND 3) - 1)
      else None)"

definition amd_last_descriptor :: "cpuid_hw \<Rightarrow> s32 \<Rightarrow> cache_level \<Rightarrow> s32 option" where
  "amd_last_descriptor cpuidex subfunc l =
     find (\<lambda>n. amd_descriptor_level (cpuidex 0x8000001D n) = Some l)
       (rev (amd_subleaves_read cpuidex subfunc))"

text \<open>
  Bits \<open>lo\<close> to \<open>hi\<close> of a register, as the processor manuals number them; used to state
  what the shift-and-mask expressions of the code extract.
\<close>

definition bit_field :: "nat \<Rightarrow> nat \<Rightarrow> s32 \<Rightarrow> s32" where
  "bit_field lo hi w = take_bit (Suc hi - lo) (drop_bit lo w)"

text \<open>The flags that the decode rules of leaf 1 own.\<close>

definition leaf1_flags :: s32 where
  "leaf1_flags = RDTSCP OR SSE1 OR SSE2 OR SSE3 OR SSSE3 OR FMA3 OR SSE4_1 OR SSE4_2 OR POPCNT
                 OR AVX1 OR F16C"

section \<open>Register tables for concrete runs\<close>

definition regs :: "s32 \<Rightarrow> s32 \<Rightarrow> s32 \<Rightarrow> s32 \<Rightarrow> cpuid_out" where
  "regs a b c d r = (case r of EAX \<Rightarrow> a | EBX \<Rightarrow> b | ECX \<Rightarrow> c | EDX \<Rightarrow> d)"

definition cpuid_zero :: cpuid_hw where
  "cpuid_zero leaf subleaf r = 0"

text \<open>
  A four-core, eight-thread Intel part: leaf 0xB reports 2 threads per core and 8
  threads; leaf 4 lists L1 data, L1 instruction, L2 and L3 caches, the L3 shared by up to
  16 logical processors.
\<close>

definition intel_sample :: cpuid_hw where
  "intel_sample leaf subleaf =
     (if leaf = 0x0 then regs 0xB 0x756E6547 0x6C65746E 0x49656E69
      else if leaf = 0x1 then regs 0x000906EA 0x00100800 0x30981201 0x16000010
      else if leaf = 0x4 then
        (if subleaf = 0 then regs 0x00004121 0x01C0003F 0x0000003F 0
         else if subleaf = 1 then regs 0x00004122 0x01C0003F 0x0000003F 0
         else if subleaf = 2 then regs 0x00004143 0x00C0003F 0x000003FF 0
         else if subleaf = 3 then regs 0x0003C163 0x03C0003F 0x00001FFF 0
         else regs 0 0 0 0)
      else if leaf = 0x7 then regs 0 0x00000128 0 0
      else if leaf = 0xB then
        (if subleaf = 0 then regs 1 2 0x100 0
         else if subleaf = 1 then regs 4 8 0x201 0
         else regs 0 0 0 0)
      else if leaf = 0x80000000 then regs 0x80000008 0 0 0
      else if leaf = 0x80000001 then regs 0 0 0x00000020 0
      else if leaf = 0x80000002 then regs 0x65746E49 0x2952286C 0x726F4320 0x4D542865
      else if leaf = 0x80000003 then regs 0x37692029 0x3037382D 0x43204B30 0x40205550
      else if leaf = 0x80000004 then regs 0x372E3320 0x7A484730 0 0
      else regs 0 0 0 0)"

text \<open>
  An AMD signature whose registers are not consistent with each other: one core and
  one thread per core (legacy topology path, leaf 0x80000008), and an L1 data cache that
  leaf 0x8000001D reports as shared by two logical processors.
\<close>

definition amd_sample :: cpuid_hw where
  "amd_sample leaf subleaf =
     (if leaf = 0x0 then regs 0x1 0x68747541 0x444D4163 0x69746E65
      else if leaf = 0x1 then regs 0x00200F00 0 0x00000001 0x06000010
      else if leaf = 0x80000000 then regs 0x8000001D 0 0 0
      else if leaf = 0x80000001 then regs 0 0 0x00400000 0
      else if leaf = 0x8000001D then
        (if subleaf = 0 then regs 0x00004021 0x0000003F 0x0000003F 0
         else regs 0 0 0 0)
      else regs 0 0 0 0)"

text \<open>A signature of neither vendor, with leaf 1 as the highest standard leaf.\<close>

definition unknown_vendor_sample :: cpuid_hw where
  "unknown_vendor_sample leaf subleaf =
     (if leaf = 0x0 then regs 0x1 0x746E6543 0x736C7561 0x48727561
      else if leaf = 0x1 then regs 0x00000698 0 0x00000001 0x06000010
      else regs 0 0 0 0)"

text \<open>
  An eight-core, sixteen-thread AMD part: leaf 0xB reports 2 threads per core and 16
  threads; leaf 0x8000001D lists L1 data, L1 instruction, L2 and L3 caches, the L3 shared
  by 16 logical processors.
\<close>

definition amd_zen_sample :: cpuid_hw where
  "amd_zen_sample leaf subleaf =
     (if leaf = 0x0 then regs 0x10 0x68747541 0x444D4163 0x69746E65
      else if leaf = 0x1 then regs 0x00870F10 0x00100800 0x30981201 0x16000010
      else if leaf = 0x7 then regs 0 0x00000128 0 0
      else if leaf = 0xB then
        (if subleaf = 0 then regs 1 2 0x100 0
         else if subleaf = 1 then regs 7 16 0x201 0
         else regs 0 0 0 0)
      else if leaf = 0x80000000 then regs 0x8000001E 0 0 0
      else if leaf = 0x80000001 then regs 0 0 0x00400020 0
      else if leaf = 0x80000002 then regs 0x20444D41 0x657A7952 0x2037206E 0x30303733
      else if leaf = 0x80000003 then regs 0x2D382058 0x65726F43 0x6F725020 0x73736563
      else if leaf = 0x80000004 then regs 0x0000726F 0 0 0
      else if leaf = 0x8000001D then
        (if subleaf = 0 then regs 0x00004121 0x01C0003F 0x0000003F 0
         else if subleaf = 1 then regs 0x00004122 0x01C0003F 0x0000003F 0
         else if subleaf = 2 then regs 0x00004143 0x01C0003F 0x000003FF 0
         else if subleaf = 3 then regs 0x0003C163 0x03C0003F 0x00003FFF 0
         else regs 0 0 0 0)
      else regs 0 0 0 0)"

section \<open>Auxiliary facts\<close>

declare amd_caches_loop.simps [simp del] intel_caches_loop.simps [simp del]
  amd_subleaves_read.simps [simp del]

lemmas sample_defs = intel_sample_def amd_sample_def unknown_vendor_sample_def regs_def
  cpuid_zero_def amd_zen_sample_def

lemmas flag_defs = SSE1_def SSE2_def SSE3_def SSSE3_def SSE4_1_def SSE4_2_def AVX1_def AVX2_def
  FMA3_def AVX512F_def POPCNT_def LZCNT_def TZCNT_def BMI1_def BMI2_def TBM_def RDTSCP_def F16C_def

lemmas eval_defs = cpu_specs_init_def cpu_specs_get_common_instructions_def Let_def sample_defs
  cpu_specs_static_def CPU_MANUFACTURER_AMD_def CPU_MANUFACTURER_INTEL_def
  cpu_specs_amd_get_cores_info_def cpu_specs_amd_get_caches_info_def
  cpu_specs_amd_get_instructions_def cpu_specs_intel_get_cores_info_def
  cpu_specs_intel_get_caches_info_def cpu_specs_intel_get_instructions_def
  amd_caches_loop.simps amd_cache_descriptor_def intel_caches_loop.simps
  intel_cache_descriptor_def cache_level_of_index_def store_data_cache_size_def
  store_attached_core_count_def s32_div_def update_inst_availability_def flag_defs KiB_def
  word_le_nat_alt word_sle_eq

subsection \<open>The flag update\<close>

lemma isolated_bit_eq:
  "unat n < 32 \<Longrightarrow>
   signed_drop_bit (unat n) (f :: s32) AND 1 = (if bit f (unat n) then 1 else 0)"
  by (rule bit_word_eqI) (auto simp: bit_simps intro: ccontr)

lemma bit_update_inst_availability:
  "unat n < 32 \<Longrightarrow>
   bit (update_inst_availability i f n m) k = (if bit m k then bit f (unat n) else bit i k)"
  by (auto simp: update_inst_availability_def Let_def isolated_bit_eq bit_simps
      dest: bit_imp_le_length)

subsection \<open>The cache level index\<close>

lemma and3_cases: "(x :: s32) AND 3 = 0 \<or> x AND 3 = 1 \<or> x AND 3 = 2 \<or> x AND 3 = 3"
proof -
  have "x AND 3 \<le> 3" by (rule word_and_le1)
  then have "unat (x AND 3) \<le> 3" by (simp add: word_le_nat_alt)
  then have "unat (x AND 3) = 0 \<or> unat (x AND 3) = 1 \<or> unat (x AND 3) = 2 \<or> unat (x AND 3) = 3"
    by arith
  then show ?thesis
    by (auto simp: word_unat_eq_iff)
qed

lemma cache_level_of_index_pred:
  "cache_level_of_index ((x AND 3) - 1) = None \<longleftrightarrow> x AND 3 = 0"
  using and3_cases [of x] by (auto simp: cache_level_of_index_def)

lemma cache_level_of_index_range:
  "cache_level_of_index idx \<noteq> None \<longleftrightarrow> 0 <=s idx \<and> idx <s CACHE_LEVEL_COUNT"
proof -
  have "idx = 0 \<or> idx = 1 \<or> idx = 2" if "0 <=s idx" "idx <s 3"
  proof -
    from that have "0 \<le> sint idx" "sint idx < 3"
      by (simp_all add: word_sle_eq word_sless_alt)
    then have "sint idx = 0 \<or> sint idx = 1 \<or> sint idx = 2" by arith
    then show ?thesis
      by (auto simp: word_eq_iff_signed [where ?'a = int])
  qed
  then show ?thesis
    by (auto simp: cache_level_of_index_def CACHE_LEVEL_COUNT_def word_sle_eq word_sless_alt)
qed

lemma amd_cache_descriptor_oob:
  "amd_cache_descriptor out s = Inl IndexOutOfBounds \<longleftrightarrow> signed_drop_bit 5 (out EAX) AND 3 = 0"
  using cache_level_of_index_pred [of "signed_drop_bit 5 (out EAX)"]
  by (auto simp: amd_cache_descriptor_def Let_def split: option.splits)

lemma intel_cache_descriptor_oob:
  "intel_cache_descriptor out s = Inl IndexOutOfBounds \<longleftrightarrow> signed_drop_bit 5 (out EAX) AND 3 = 0"
  using cache_level_of_index_pred [of "signed_drop_bit 5 (out EAX)"]
  by (auto simp: intel_cache_descriptor_def Let_def split: option.splits)

lemma amd_cache_descriptor_frame:
  "amd_cache_descriptor out s = Inr s' \<Longrightarrow>
   \<exists>l. cache_level_of_index ((signed_drop_bit 5 (out EAX) AND 3) - 1) = Some l
     \<and> (\<forall>l'. l' \<noteq> l \<longrightarrow> cache_level_specs s' l' = cache_level_specs s l')"
  by (auto simp: amd_cache_descriptor_def Let_def store_data_cache_size_def
      store_attached_core_count_def split: option.splits if_splits)

lemma intel_cache_descriptor_frame:
  "intel_cache_descriptor out s = Inr s' \<Longrightarrow>
   \<exists>l. cache_level_of_index ((signed_drop_bit 5 (out EAX) AND 3) - 1) = Some l
     \<and> (\<forall>l'. l' \<noteq> l \<longrightarrow> cache_level_specs s' l' = cache_level_specs s l')"
  by (auto simp: intel_cache_descriptor_def Let_def store_data_cache_size_def
      store_attached_core_count_def split: option.splits if_splits)

subsection \<open>Divisions by \<open>threads_per_core\<close>\<close>

lemma amd_cache_descriptor_div:
  "signed_drop_bit 5 (out EAX) AND 3 \<noteq> 0 \<Longrightarrow>
   amd_cache_descriptor out s = Inl DivideByZero \<longleftrightarrow> threads_per_core s = 0"
  using cache_level_of_index_pred [of "signed_drop_bit 5 (out EAX)"]
  by (auto simp: amd_cache_descriptor_def Let_def store_data_cache_size_def split: option.splits)

lemma intel_cache_descriptor_div:
  "signed_drop_bit 5 (out EAX) AND 3 \<noteq> 0 \<Longrightarrow>
   intel_cache_descriptor out s = Inl DivideByZero \<longleftrightarrow> threads_per_core s = 0"
  using cache_level_of_index_pred [of "signed_drop_bit 5 (out EAX)"]
  by (auto simp: intel_cache_descriptor_def Let_def store_data_cache_size_def split: option.splits)

lemma amd_cores_div:
  "0xB \<le> max_standard_func ctx \<Longrightarrow>
   cpu_specs_amd_get_cores_info cpuidex ctx s = Inl DivideByZero
     \<longleftrightarrow> cpuidex 0xB 0 EBX AND 0xFFFF = 0"
  by (auto simp: cpu_specs_amd_get_cores_info_def Let_def)

lemma intel_cores_div:
  "0xB \<le> max_standard_func ctx \<Longrightarrow>
   cpu_specs_intel_get_cores_info cpuidex ctx s = Inl DivideByZero \<longleftrightarrow>
     cpuidex (if 0x1F \<le> max_standard_func ctx then 0x1F else 0xB) 0 EBX AND 0xFFFF = 0"
  by (auto simp: cpu_specs_intel_get_cores_info_def Let_def)

subsection \<open>Byte buffers\<close>

lemma length_u32_bytes [simp]: "length (u32_bytes w) = 4"
  by (simp add: u32_bytes_def)

lemma bytes_u32_u32_bytes [simp]: "bytes_u32 (u32_bytes w) = w"
  unfolding u32_bytes_def
  apply (rule bit_word_eqI)
  apply (auto simp: bit_simps)
  apply (rule ccontr)
  apply (simp add: not_less)
  done

lemma store_manufacturer:
  "length buf = 12 \<Longrightarrow>
   store_u32 8 c (store_u32 4 b (store_u32 0 a buf)) = u32_bytes a @ u32_bytes b @ u32_bytes c"
  by (simp add: store_u32_def)

lemma load_manufacturer_ecx:
  "load_s32 8 (u32_bytes a @ u32_bytes b @ u32_bytes c) = c"
  by (simp add: load_s32_def)

subsection \<open>Fields of the leaf-1 signature\<close>

lemma num_masks:
  "(0xF :: s32) = mask 4" "(0xFF :: s32) = mask 8" "(0xF0 :: s32) = push_bit 4 (mask 4)"
  by (simp_all add: mask_eq_exp_minus_1)

lemma field_8_11: "signed_drop_bit 8 w AND 0xF = bit_field 8 11 w"
  unfolding num_masks by (rule bit_word_eqI) (auto simp: bit_field_def bit_simps)

lemma field_4_7: "signed_drop_bit 4 w AND 0xF = bit_field 4 7 w"
  unfolding num_masks by (rule bit_word_eqI) (auto simp: bit_field_def bit_simps)

lemma field_0_3: "w AND 0xF = bit_field 0 3 w"
  unfolding num_masks by (rule bit_word_eqI) (auto simp: bit_field_def bit_simps)

lemma field_20_27: "signed_drop_bit 20 w AND 0xFF = bit_field 20 27 w"
  unfolding num_masks by (rule bit_word_eqI) (auto simp: bit_field_def bit_simps)

lemma field_16_19: "signed_drop_bit 12 w AND 0xF0 = push_bit 4 (bit_field 16 19 w)"
  unfolding num_masks by (rule bit_word_eqI) (auto simp: bit_field_def bit_simps)

lemma extended_family_no_wrap: "0xF + bit_field 20 27 w \<noteq> 0x6"
proof
  assume eq: "0xF + bit_field 20 27 w = 0x6"
  have "take_bit 8 (unat (drop_bit 20 w)) < 2 ^ 8"
    by (rule take_bit_nat_less_exp)
  then have "unat (bit_field 20 27 w) < 256"
    unfolding bit_field_def by (simp add: unsigned_take_bit_eq)
  then have "unat (0xF + bit_field 20 27 w) = 15 + unat (bit_field 20 27 w)"
    by (simp add: unat_word_ariths)
  with arg_cong [OF eq, of unat] have "15 + unat (bit_field 20 27 w) = unat (0x6 :: s32)"
    by (simp only:)
  then show False by simp
qed

lemma identity_manufacturer:
  "length (manufacturer c) = 12 \<Longrightarrow>
   manufacturer (cpu_identity_init True cpuidex c) =
     u32_bytes (cpuidex 0 0 EBX) @ u32_bytes (cpuidex 0 0 EDX) @ u32_bytes (cpuidex 0 0 ECX)"
  by (simp add: cpu_identity_init_def Let_def store_manufacturer)

lemma identity_family:
  "family (cpu_identity_init True cpuidex c) =
     (if bit_field 8 11 (cpuidex 1 0 EAX) = 0xF
      then 0xF + bit_field 20 27 (cpuidex 1 0 EAX)
      else bit_field 8 11 (cpuidex 1 0 EAX))"
  by (simp add: cpu_identity_init_def Let_def field_8_11 field_20_27)

lemma identity_model:
  assumes "length (manufacturer c) = 12"
  shows "model (cpu_identity_init True cpuidex c) =
           (if bit_field 8 11 (cpuidex 1 0 EAX) = 0xF
               \<or> (cpuidex 0 0 ECX = CPU_MANUFACTURER_INTEL \<and> bit_field 8 11 (cpuidex 1 0 EAX) = 0x6)
            then bit_field 4 7 (cpuidex 1 0 EAX) OR push_bit 4 (bit_field 16 19 (cpuidex 1 0 EAX))
            else bit_field 4 7 (cpuidex 1 0 EAX))"
  using assms extended_family_no_wrap [of "cpuidex 1 0 EAX"]
  by (simp add: cpu_identity_init_def Let_def store_manufacturer load_manufacturer_ecx
      field_8_11 field_4_7 field_20_27 field_16_19)

lemma identity_stepping:
  "stepping (cpu_identity_init True cpuidex c) = bit_field 0 3 (cpuidex 1 0 EAX)"
  by (simp add: cpu_identity_init_def Let_def field_0_3 [symmetric])

lemmas identity_eval_defs = cpu_identity_init_def cpu_identity_static_def cpu_identity_sized_def
  char_array_def store_u32_def load_s32_def store_cpuid_out_def u32_bytes_def sample_defs
  CPU_MANUFACTURER_INTEL_def Let_def bit_field_def word_le_nat_alt

subsection \<open>Instruction flags\<close>

lemma flag_test: "x AND push_bit j 1 \<noteq> 0 \<longleftrightarrow> bit x j" for x :: s32
  by (simp add: bit_iff_and_push_bit_not_eq_0)

lemma bit_flag: "bit (push_bit j (1 :: s32)) k \<longleftrightarrow> k = j \<and> j < 32"
  by (auto simp: bit_simps)

lemma bit_flags:
  "bit SSE1 k \<longleftrightarrow> k = 0" "bit SSE2 k \<longleftrightarrow> k = 1" "bit SSE3 k \<longleftrightarrow> k = 2"
  "bit SSSE3 k \<longleftrightarrow> k = 3" "bit SSE4_1 k \<longleftrightarrow> k = 4" "bit SSE4_2 k \<longleftrightarrow> k = 5"
  "bit AVX1 k \<longleftrightarrow> k = 6" "bit AVX2 k \<longleftrightarrow> k = 7" "bit FMA3 k \<longleftrightarrow> k = 8"
  "bit AVX512F k \<longleftrightarrow> k = 9" "bit POPCNT k \<longleftrightarrow> k = 10" "bit LZCNT k \<longleftrightarrow> k = 11"
  "bit TZCNT k \<longleftrightarrow> k = 12" "bit BMI1 k \<longleftrightarrow> k = 13" "bit BMI2 k \<longleftrightarrow> k = 14"
  "bit TBM k \<longleftrightarrow> k = 15" "bit RDTSCP k \<longleftrightarrow> k = 16" "bit F16C k \<longleftrightarrow> k = 17"
  unfolding flag_defs bit_flag by simp_all

lemma common_instructions_frame:
  "cpu_specs_get_common_instructions cpuidex ctx s =
     s\<lparr>instructions := instructions (cpu_specs_get_common_instructions cpuidex ctx s)\<rparr>"
  by (simp add: cpu_specs_get_common_instructions_def Let_def)

lemma common_instructions_leaf1_bit:
  assumes "\<not> 0x7 \<le> max_standard_func ctx"
  shows "bit (instructions (cpu_specs_get_common_instructions cpuidex ctx s)) k \<longleftrightarrow>
    (if k = 17 then bit (cpuidex 1 0 ECX) 29
     else if k = 6 then bit (cpuidex 1 0 ECX) 28
     else if k = 10 then bit (cpuidex 1 0 ECX) 23
     else if k = 5 then bit (cpuidex 1 0 ECX) 20
     else if k = 4 then bit (cpuidex 1 0 ECX) 19
     else if k = 8 then bit (cpuidex 1 0 ECX) 12
     else if k = 3 then bit (cpuidex 1 0 ECX) 9
     else if k = 2 then bit (cpuidex 1 0 ECX) 0
     else if k = 1 then bit (cpuidex 1 0 EDX) 26
     else if k = 0 then bit (cpuidex 1 0 EDX) 25
     else if k = 16 then bit (cpuidex 1 0 EDX) 4
     else bit (instructions s) k)"
  using assms
  by (simp add: cpu_specs_get_common_instructions_def Let_def bit_update_inst_availability
      bit_flags)


lemma not_leaf1_flags_bit:
  "bit (x AND NOT leaf1_flags) k \<longleftrightarrow>
     bit x k \<and> k \<notin> {16, 0, 1, 2, 3, 8, 4, 5, 10, 6, 17}" for x :: s32
  by (auto simp: leaf1_flags_def bit_simps bit_flags dest: bit_imp_le_length)

subsection \<open>Iterating over cache descriptors\<close>

lemma intel_caches_loop_invariant:
  assumes "intel_caches_loop cpuidex subfunc s = Inr s'"
    and "P s"
    and "\<And>n t t1. P t \<Longrightarrow> cpuidex 4 n EAX AND 1 \<noteq> 0 \<Longrightarrow>
           intel_cache_descriptor (cpuidex 4 n) t = Inr t1 \<Longrightarrow> P t1"
  shows "P s'"
  using assms
proof (induction cpuidex subfunc s rule: intel_caches_loop.induct)
  case (1 cpuidex subfunc s)
  note step = "1.prems"(3)
  show ?case
  proof (cases "cpuidex 4 subfunc EAX AND 0xF \<noteq> 0")
    case False
    with "1.prems" show ?thesis
      by (simp add: intel_caches_loop.simps [of cpuidex subfunc s])
  next
    case more: True
    with "1.prems"(1) obtain s1
      where d: "(if cpuidex 4 subfunc EAX AND 1 \<noteq> 0
                 then intel_cache_descriptor (cpuidex 4 subfunc) s else Inr s) = Inr s1"
        and nm: "subfunc \<noteq> 0x7FFFFFFF"
        and run: "intel_caches_loop cpuidex (subfunc + 1) s1 = Inr s'"
      by (auto simp: intel_caches_loop.simps [of cpuidex subfunc s] Let_def
          split: sum.splits if_splits)
    have "P s1"
    proof (cases "cpuidex 4 subfunc EAX AND 1 \<noteq> 0")
      case True
      with d have "intel_cache_descriptor (cpuidex 4 subfunc) s = Inr s1" by simp
      with "1.prems"(2) True show ?thesis by (rule step)
    next
      case False
      with d "1.prems"(2) show ?thesis by simp
    qed
    from "1.IH" [OF refl more d nm run this step] show ?thesis .
  qed
qed

lemma amd_caches_loop_invariant:
  assumes "amd_caches_loop cpuidex subfunc s = Inr s'"
    and "P s"
    and "\<And>n t t1. P t \<Longrightarrow> cpuidex 0x8000001D n EAX AND 1 \<noteq> 0 \<Longrightarrow>
           amd_cache_descriptor (cpuidex 0x8000001D n) t = Inr t1 \<Longrightarrow> P t1"
  shows "P s'"
  using assms
proof (induction cpuidex subfunc s rule: amd_caches_loop.induct)
  case (1 cpuidex subfunc s)
  note step = "1.prems"(3)
  let ?out = "cpuidex 0x8000001D subfunc"
  from "1.prems"(1) obtain s1
    where d: "(if ?out EAX AND 1 \<noteq> 0 then amd_cache_descriptor ?out s else Inr s) = Inr s1"
      and nm: "subfunc \<noteq> 0x7FFFFFFF"
      and rest: "if cpuidex 0x8000001D (subfunc + 1) EAX AND 0xF \<noteq> 0
                 then amd_caches_loop cpuidex (subfunc + 1) s1 = Inr s' else s' = s1"
    by (auto simp: amd_caches_loop.simps [of cpuidex subfunc s] Let_def
        split: sum.splits if_splits)
  have inv: "P s1"
  proof (cases "?out EAX AND 1 \<noteq> 0")
    case True
    with d have "amd_cache_descriptor ?out s = Inr s1" by simp
    with "1.prems"(2) True show ?thesis by (rule step)
  next
    case False
    with d "1.prems"(2) show ?thesis by simp
  qed
  show ?case
  proof (cases "cpuidex 0x8000001D (subfunc + 1) EAX AND 0xF \<noteq> 0")
    case False
    with rest inv show ?thesis by simp
  next
    case True
    with rest have run: "amd_caches_loop cpuidex (subfunc + 1) s1 = Inr s'" by simp
    from "1.IH" [OF refl d nm True run inv step] show ?thesis .
  qed
qed

lemma intel_cache_descriptor_scalars:
  "intel_cache_descriptor out s = Inr s1 \<Longrightarrow>
   cache_line_size s1 = cache_line_size s \<and> threads_per_core s1 = threads_per_core s
   \<and> core_count s1 = core_count s \<and> instructions s1 = instructions s"
  by (auto simp: intel_cache_descriptor_def Let_def store_data_cache_size_def
      store_attached_core_count_def split: option.splits if_splits)

lemma amd_cache_descriptor_scalars:
  "amd_cache_descriptor out s = Inr s1 \<Longrightarrow>
   cache_line_size s1 = cache_line_size s \<and> threads_per_core s1 = threads_per_core s
   \<and> core_count s1 = core_count s \<and> instructions s1 = instructions s"
  by (auto simp: amd_cache_descriptor_def Let_def store_data_cache_size_def
      store_attached_core_count_def split: option.splits if_splits)

lemma intel_cache_descriptor_bound:
  assumes "intel_cache_descriptor out s = Inr s1"
  shows "\<forall>l. cache_level_specs s1 l = cache_level_specs s l
              \<or> attached_core_count (cache_level_specs s1 l) <=s core_count s"
  using assms
  by (auto simp: intel_cache_descriptor_def Let_def store_data_cache_size_def
      store_attached_core_count_def split: option.splits if_splits)

lemma amd_cache_descriptor_bound:
  assumes "amd_cache_descriptor out s = Inr s1"
    and "s32_div ((signed_drop_bit 14 (out EAX) AND 0xFFF) + 1) (threads_per_core s)
           <=s core_count s"
  shows "\<forall>l. cache_level_specs s1 l = cache_level_specs s l
              \<or> attached_core_count (cache_level_specs s1 l) <=s core_count s"
  using assms
  by (auto simp: amd_cache_descriptor_def Let_def store_data_cache_size_def
      store_attached_core_count_def split: option.splits if_splits)

lemma intel_caches_loop_scalars:
  assumes "intel_caches_loop cpuidex subfunc s = Inr s'"
  shows "cache_line_size s' = cache_line_size s \<and> threads_per_core s' = threads_per_core s
       \<and> core_count s' = core_count s \<and> instructions s' = instructions s"
  by (rule intel_caches_loop_invariant [OF assms]) (auto dest: intel_cache_descriptor_scalars)

lemma amd_caches_loop_scalars:
  assumes "amd_caches_loop cpuidex subfunc s = Inr s'"
  shows "cache_line_size s' = cache_line_size s \<and> threads_per_core s' = threads_per_core s
       \<and> core_count s' = core_count s \<and> instructions s' = instructions s"
  by (rule amd_caches_loop_invariant [OF assms]) (auto dest: amd_cache_descriptor_scalars)

lemma intel_caches_loop_bound:
  assumes "intel_caches_loop cpuidex subfunc s = Inr s'"
  shows "\<forall>l. cache_level_specs s' l = cache_level_specs s l
          \<or> attached_core_count (cache_level_specs s' l) <=s core_count s"
proof -
  have "core_count s' = core_count s \<and>
      (\<forall>l. cache_level_specs s' l = cache_level_specs s l
          \<or> attached_core_count (cache_level_specs s' l) <=s core_count s)"
  proof (rule intel_caches_loop_invariant [OF assms], goal_cases)
    case 1
    show ?case by simp
  next
    case (2 n t t1)
    from intel_cache_descriptor_bound [OF 2(3)] intel_cache_descriptor_scalars [OF 2(3)] 2(1)
    show ?case by metis
  qed
  then show ?thesis by simp
qed

lemma amd_caches_loop_bound:
  assumes "amd_caches_loop cpuidex subfunc s = Inr s'"
    and "\<forall>n. cpuidex 0x8000001D n EAX AND 1 \<noteq> 0 \<longrightarrow>
      s32_div ((signed_drop_bit 14 (cpuidex 0x8000001D n EAX) AND 0xFFF) + 1) (threads_per_core s)
        <=s core_count s"
  shows "\<forall>l. cache_level_specs s' l = cache_level_specs s l
          \<or> attached_core_count (cache_level_specs s' l) <=s core_count s"
proof -
  have "threads_per_core s' = threads_per_core s \<and> core_count s' = core_count s \<and>
      (\<forall>l. cache_level_specs s' l = cache_level_specs s l
          \<or> attached_core_count (cache_level_specs s' l) <=s core_count s)"
  proof (rule amd_caches_loop_invariant [OF assms(1)], goal_cases)
    case 1
    show ?case by simp
  next
    case (2 n t t1)
    from 2(1,2) assms(2)
    have "s32_div ((signed_drop_bit 14 (cpuidex 0x8000001D n EAX) AND 0xFFF) + 1)
            (threads_per_core t) <=s core_count t"
      by simp
    from amd_cache_descriptor_bound [OF 2(3) this] amd_cache_descriptor_scalars [OF 2(3)] 2(1)
    show ?case by metis
  qed
  then show ?thesis by simp
qed

lemma common_instructions_fields:
  "cache_level_specs (cpu_specs_get_common_instructions cpuidex ctx s) = cache_level_specs s"
  "cache_line_size (cpu_specs_get_common_instructions cpuidex ctx s) = cache_line_size s"
  "threads_per_core (cpu_specs_get_common_instructions cpuidex ctx s) = threads_per_core s"
  "core_count (cpu_specs_get_common_instructions cpuidex ctx s) = core_count s"
  by (simp_all add: cpu_specs_get_common_instructions_def Let_def)

lemma intel_instructions_fields:
  "cache_level_specs (cpu_specs_intel_get_instructions cpuidex ctx s) = cache_level_specs s"
  "cache_line_size (cpu_specs_intel_get_instructions cpuidex ctx s) = cache_line_size s"
  "threads_per_core (cpu_specs_intel_get_instructions cpuidex ctx s) = threads_per_core s"
  "core_count (cpu_specs_intel_get_instructions cpuidex ctx s) = core_count s"
  by (simp_all add: cpu_specs_intel_get_instructions_def Let_def)

lemma amd_instructions_fields:
  "cache_level_specs (cpu_specs_amd_get_instructions cpuidex ctx s) = cache_level_specs s"
  "cache_line_size (cpu_specs_amd_get_instructions cpuidex ctx s) = cache_line_size s"
  "threads_per_core (cpu_specs_amd_get_instructions cpuidex ctx s) = threads_per_core s"
  "core_count (cpu_specs_amd_get_instructions cpuidex ctx s) = core_count s"
  by (simp_all add: cpu_specs_amd_get_instructions_def Let_def)

lemma intel_cores_fields:
  "cpu_specs_intel_get_cores_info cpuidex ctx s = Inr s' \<Longrightarrow>
   cache_level_specs s' = cache_level_specs s \<and> cache_line_size s' = cache_line_size s
   \<and> instructions s' = instructions s"
  by (auto simp: cpu_specs_intel_get_cores_info_def Let_def split: if_splits)

lemma amd_cores_fields:
  "cpu_specs_amd_get_cores_info cpuidex ctx s = Inr s' \<Longrightarrow>
   cache_level_specs s' = cache_level_specs s \<and> cache_line_size s' = cache_line_size s
   \<and> instructions s' = instructions s"
  by (auto simp: cpu_specs_amd_get_cores_info_def Let_def split: if_splits)

lemma intel_caches_bound:
  assumes "cpu_specs_intel_get_caches_info cpuidex ctx s = Inr s'"
  shows "threads_per_core s' = threads_per_core s \<and> core_count s' = core_count s
       \<and> instructions s' = instructions s
       \<and> (\<forall>l. cache_level_specs s' l = cache_level_specs s l
              \<or> attached_core_count (cache_level_specs s' l) <=s core_count s)"
proof (cases "0x4 \<le> max_standard_func ctx")
  case True
  with assms have "intel_caches_loop cpuidex 0
      (s\<lparr>cache_line_size := (cpuidex 0x4 0 EBX AND 0x7F) + 1\<rparr>) = Inr s'"
    by (simp add: cpu_specs_intel_get_caches_info_def Let_def)
  from intel_caches_loop_bound [OF this] intel_caches_loop_scalars [OF this]
  show ?thesis by simp
next
  case False
  with assms show ?thesis
    by (simp add: cpu_specs_intel_get_caches_info_def)
qed

lemma amd_caches_scalars:
  assumes "cpu_specs_amd_get_caches_info cpuidex ctx s = Inr s'"
  shows "threads_per_core s' = threads_per_core s \<and> core_count s' = core_count s
       \<and> instructions s' = instructions s"
proof (cases "0x8000001D \<le> max_extended_func ctx
              \<and> cpuidex 0x80000001 0 ECX AND push_bit 22 1 \<noteq> 0")
  case True
  with assms have "amd_caches_loop cpuidex 0
      (s\<lparr>cache_line_size := (cpuidex 0x8000001D 0 EBX AND 0x7F) + 1\<rparr>) = Inr s'"
    by (simp add: cpu_specs_amd_get_caches_info_def Let_def)
  from amd_caches_loop_scalars [OF this] show ?thesis by simp
next
  case False
  with assms show ?thesis
    by (auto simp: cpu_specs_amd_get_caches_info_def Let_def store_data_cache_size_def
        store_attached_core_count_def split: if_splits)
qed

lemma amd_caches_bound:
  assumes "cpu_specs_amd_get_caches_info cpuidex ctx s = Inr s'"
    and "0x8000001D \<le> max_extended_func ctx"
    and "\<forall>n. cpuidex 0x8000001D n EAX AND 1 \<noteq> 0 \<longrightarrow>
      s32_div ((signed_drop_bit 14 (cpuidex 0x8000001D n EAX) AND 0xFFF) + 1) (threads_per_core s)
        <=s core_count s"
  shows "\<forall>l. cache_level_specs s' l = cache_level_specs s l
              \<or> attached_core_count (cache_level_specs s' l) <=s core_count s"
proof (cases "cpuidex 0x80000001 0 ECX AND push_bit 22 1 \<noteq> 0")
  case True
  with assms(1,2) have "amd_caches_loop cpuidex 0
      (s\<lparr>cache_line_size := (cpuidex 0x8000001D 0 EBX AND 0x7F) + 1\<rparr>) = Inr s'"
    by (simp add: cpu_specs_amd_get_caches_info_def Let_def)
  from amd_caches_loop_bound [OF this] assms(3) show ?thesis by simp
next
  case False
  with assms(1,2) show ?thesis
    by (simp add: cpu_specs_amd_get_caches_info_def Let_def)
qed

lemma find_snoc:
  "find P (xs @ [x]) = (case find P xs of None \<Rightarrow> (if P x then Some x else None) | Some y \<Rightarrow> Some y)"
  by (induction xs) auto

lemma amd_cache_descriptor_stores:
  assumes "amd_cache_descriptor out s = Inr s1" and "out EAX AND 1 \<noteq> 0"
  shows "\<exists>l0. amd_descriptor_level out = Some l0
     \<and> attached_core_count (cache_level_specs s1 l0) =
         s32_div ((signed_drop_bit 14 (out EAX) AND 0xFFF) + 1) (threads_per_core s)
     \<and> (\<forall>l. l \<noteq> l0 \<longrightarrow> cache_level_specs s1 l = cache_level_specs s l)"
  using assms
  by (auto simp: amd_cache_descriptor_def amd_descriptor_level_def Let_def
      store_data_cache_size_def store_attached_core_count_def split: option.splits if_splits)

lemma amd_caches_loop_last:
  "amd_caches_loop cpuidex subfunc s = Inr s' \<Longrightarrow>
   (case amd_last_descriptor cpuidex subfunc l of
      None \<Rightarrow> cache_level_specs s' l = cache_level_specs s l
    | Some n \<Rightarrow> attached_core_count (cache_level_specs s' l) =
        s32_div ((signed_drop_bit 14 (cpuidex 0x8000001D n EAX) AND 0xFFF) + 1)
                (threads_per_core s))"
proof (induction cpuidex subfunc s rule: amd_caches_loop.induct)
  case (1 cpuidex subfunc s)
  let ?out = "cpuidex 0x8000001D subfunc"
  let ?q = "\<lambda>n. s32_div ((signed_drop_bit 14 (cpuidex 0x8000001D n EAX) AND 0xFFF) + 1)
                (threads_per_core s)"
  from "1.prems"(1) obtain s1
    where d: "(if ?out EAX AND 1 \<noteq> 0 then amd_cache_descriptor ?out s else Inr s) = Inr s1"
      and nm: "subfunc \<noteq> 0x7FFFFFFF"
      and rest: "if cpuidex 0x8000001D (subfunc + 1) EAX AND 0xF \<noteq> 0
                 then amd_caches_loop cpuidex (subfunc + 1) s1 = Inr s' else s' = s1"
    by (auto simp: amd_caches_loop.simps [of cpuidex subfunc s] Let_def
        split: sum.splits if_splits)
  have here: "if amd_descriptor_level ?out = Some l
              then attached_core_count (cache_level_specs s1 l) = ?q subfunc
              else cache_level_specs s1 l = cache_level_specs s l"
  proof (cases "?out EAX AND 1 \<noteq> 0")
    case True
    with d have "amd_cache_descriptor ?out s = Inr s1" by simp
    from amd_cache_descriptor_stores [OF this True] show ?thesis by auto
  next
    case False
    with d show ?thesis by (simp add: amd_descriptor_level_def)
  qed
  have tpc: "threads_per_core s1 = threads_per_core s"
    using d amd_cache_descriptor_scalars [of ?out s s1] by (simp split: if_splits)
  show ?case
  proof (cases "cpuidex 0x8000001D (subfunc + 1) EAX AND 0xF \<noteq> 0")
    case False
    with nm have "amd_subleaves_read cpuidex subfunc = [subfunc]"
      by (simp add: amd_subleaves_read.simps [of cpuidex subfunc])
    moreover from False rest have "s' = s1" by simp
    ultimately show ?thesis
      using here by (simp add: amd_last_descriptor_def)
  next
    case True
    with rest have run: "amd_caches_loop cpuidex (subfunc + 1) s1 = Inr s'" by simp
    from True nm have list: "amd_subleaves_read cpuidex subfunc =
        subfunc # amd_subleaves_read cpuidex (subfunc + 1)"
      by (simp add: amd_subleaves_read.simps [of cpuidex subfunc])
    from "1.IH" [OF refl d nm True run] tpc
    have ih: "case amd_last_descriptor cpuidex (subfunc + 1) l of
        None \<Rightarrow> cache_level_specs s' l = cache_level_specs s1 l
      | Some n \<Rightarrow> attached_core_count (cache_level_specs s' l) = ?q n"
      by (auto split: option.splits)
    show ?thesis
      using ih here
      by (simp add: amd_last_descriptor_def list find_snoc split: option.splits if_splits)
  qed
qed

lemma amd_caches_last:
  assumes "cpu_specs_amd_get_caches_info cpuidex ctx s = Inr s'"
    and "0x8000001D \<le> max_extended_func ctx"
    and "cache_level_specs s' l \<noteq> cache_level_specs s l"
  shows "\<exists>n. amd_last_descriptor cpuidex 0 l = Some n
     \<and> attached_core_count (cache_level_specs s' l) =
         s32_div ((signed_drop_bit 14 (cpuidex 0x8000001D n EAX) AND 0xFFF) + 1)
                 (threads_per_core s)"
proof (cases "cpuidex 0x80000001 0 ECX AND push_bit 22 1 \<noteq> 0")
  case False
  with assms show ?thesis
    by (simp add: cpu_specs_amd_get_caches_info_def Let_def)
next
  case True
  with assms(1,2) have "amd_caches_loop cpuidex 0
      (s\<lparr>cache_line_size := (cpuidex 0x8000001D 0 EBX AND 0x7F) + 1\<rparr>) = Inr s'"
    by (simp add: cpu_specs_amd_get_caches_info_def Let_def)
  from amd_caches_loop_last [OF this, of l] assms(3) show ?thesis
    by (auto split: option.splits)
qed

subsection \<open>A second pass over a decoded profile\<close>

lemma intel_instructions_only:
  "cpu_specs_intel_get_instructions cpuidex ctx t =
     t\<lparr>instructions := instructions (cpu_specs_intel_get_instructions cpuidex ctx t)\<rparr>"
  by (simp add: cpu_specs_intel_get_instructions_def Let_def)

lemma amd_instructions_only:
  "cpu_specs_amd_get_instructions cpuidex ctx t =
     t\<lparr>instructions := instructions (cpu_specs_amd_get_instructions cpuidex ctx t)\<rparr>"
  by (simp add: cpu_specs_amd_get_instructions_def Let_def)

lemma neg_of_bool_bit: "bit (- (if c then 1 else 0 :: s32)) k \<longleftrightarrow> c \<and> k < 32"
  by (auto simp: bit_simps)

lemma bit_amd_avx512:
  "bit (x XOR ((- (if c then 1 else 0 :: s32) XOR x) AND AVX512F)) k \<longleftrightarrow>
     (if k = 9 then c else bit x k)"
  by (auto simp: bit_simps bit_flags neg_of_bool_bit)

text \<open>
  What each decode rule leaves in \<open>instructions\<close>, for every leaf context: the flag of a
  rule that runs is the probed bit, every other flag is kept.
\<close>

lemma common_instructions_bit:
  "bit (instructions (cpu_specs_get_common_instructions cpuidex ctx s)) k \<longleftrightarrow>
    (if k = 11 \<and> 0x7 \<le> max_standard_func ctx \<and> 0x80000001 \<le> max_extended_func ctx
       then bit (cpuidex 0x80000001 0 ECX) 5
     else if k = 14 \<and> 0x7 \<le> max_standard_func ctx then bit (cpuidex 7 0 EBX) 8
     else if k = 7 \<and> 0x7 \<le> max_standard_func ctx then bit (cpuidex 7 0 EBX) 5
     else if k = 12 \<and> 0x7 \<le> max_standard_func ctx then bit (cpuidex 7 0 EBX) 3
     else if k = 13 \<and> 0x7 \<le> max_standard_func ctx then bit (cpuidex 7 0 EBX) 3
     else if k = 17 then bit (cpuidex 1 0 ECX) 29
     else if k = 6 then bit (cpuidex 1 0 ECX) 28
     else if k = 10 then bit (cpuidex 1 0 ECX) 23
     else if k = 5 then bit (cpuidex 1 0 ECX) 20
     else if k = 4 then bit (cpuidex 1 0 ECX) 19
     else if k = 8 then bit (cpuidex 1 0 ECX) 12
     else if k = 3 then bit (cpuidex 1 0 ECX) 9
     else if k = 2 then bit (cpuidex 1 0 ECX) 0
     else if k = 1 then bit (cpuidex 1 0 EDX) 26
     else if k = 0 then bit (cpuidex 1 0 EDX) 25
     else if k = 16 then bit (cpuidex 1 0 EDX) 4
     else bit (instructions s) k)"
  by (simp add: cpu_specs_get_common_instructions_def Let_def bit_update_inst_availability
      bit_flags)

lemma intel_instructions_bit:
  "bit (instructions (cpu_specs_intel_get_instructions cpuidex ctx s)) k \<longleftrightarrow>
    (if k = 9 \<and> 0x7 \<le> max_standard_func ctx then bit (cpuidex 7 0 EBX) 16
     else bit (instructions s) k)"
  by (simp add: cpu_specs_intel_get_instructions_def Let_def bit_update_inst_availability
      bit_flags)

lemma amd_instructions_bit:
  "bit (instructions (cpu_specs_amd_get_instructions cpuidex ctx s)) k \<longleftrightarrow>
    (if k = 15 \<and> 0xB \<le> max_extended_func ctx then bit (cpuidex 0x80000001 0 ECX) 21
     else if k = 9 \<and> 0xB \<le> max_standard_func ctx
       then cpuidex 0xD 5 EAX = 0x40 \<and> cpuidex 0xD 5 EBX = 0x340
     else bit (instructions s) k)"
  by (simp add: cpu_specs_amd_get_instructions_def Let_def bit_update_inst_availability
      bit_flags bit_amd_avx512)

lemma common_instructions_idem:
  assumes "instructions t = instructions (cpu_specs_get_common_instructions cpuidex ctx s)"
  shows "instructions (cpu_specs_get_common_instructions cpuidex ctx t) = instructions t"
  by (rule bit_word_eqI)
     (simp add: assms cpu_specs_get_common_instructions_def Let_def
        bit_update_inst_availability bit_flags)

lemma common_instructions_after_intel:
  assumes "instructions t = instructions (cpu_specs_intel_get_instructions cpuidex ctx u)"
    and "instructions u = instructions (cpu_specs_get_common_instructions cpuidex ctx s)"
  shows "instructions (cpu_specs_get_common_instructions cpuidex ctx t) = instructions t"
  by (rule bit_word_eqI)
     (simp add: assms cpu_specs_get_common_instructions_def cpu_specs_intel_get_instructions_def
        Let_def bit_update_inst_availability bit_flags)

lemma common_instructions_after_amd:
  assumes "instructions t = instructions (cpu_specs_amd_get_instructions cpuidex ctx u)"
    and "instructions u = instructions (cpu_specs_get_common_instructions cpuidex ctx s)"
  shows "instructions (cpu_specs_get_common_instructions cpuidex ctx t) = instructions t"
  by (rule bit_word_eqI)
     (simp add: assms cpu_specs_get_common_instructions_def cpu_specs_amd_get_instructions_def
        Let_def bit_update_inst_availability bit_flags bit_amd_avx512)

lemma intel_instructions_idem:
  assumes "instructions t = instructions (cpu_specs_intel_get_instructions cpuidex ctx u)"
  shows "instructions (cpu_specs_intel_get_instructions cpuidex ctx t) = instructions t"
  by (rule bit_word_eqI)
     (simp add: assms cpu_specs_intel_get_instructions_def
        Let_def bit_update_inst_availability bit_flags)

lemma amd_instructions_idem:
  assumes "instructions t = instructions (cpu_specs_amd_get_instructions cpuidex ctx u)"
  shows "instructions (cpu_specs_amd_get_instructions cpuidex ctx t) = instructions t"
  by (rule bit_word_eqI)
     (simp add: assms cpu_specs_amd_get_instructions_def
        Let_def bit_update_inst_availability bit_flags bit_amd_avx512)

lemma cpu_specs_eqI:
  "cache_level_specs a = cache_level_specs b \<Longrightarrow> cache_line_size a = cache_line_size b \<Longrightarrow>
   threads_per_core a = threads_per_core b \<Longrightarrow> core_count a = core_count b \<Longrightarrow>
   instructions a = instructions b \<Longrightarrow> a = b" for a b :: cpu_specs
  by simp

lemma cache_entry_eqI:
  "data_cache_size a = data_cache_size b \<Longrightarrow> attached_core_count a = attached_core_count b \<Longrightarrow>
   a = b" for a b :: cpu_cache_level_specs
  by simp

lemma intel_cores_fix:
  assumes "cpu_specs_intel_get_cores_info cpuidex ctx s = Inr s2"
    and "threads_per_core t = threads_per_core s2" and "core_count t = core_count s2"
  shows "cpu_specs_intel_get_cores_info cpuidex ctx t = Inr t"
  using assms
  by (auto simp: cpu_specs_intel_get_cores_info_def Let_def split: if_splits intro!: cpu_specs_eqI)

lemma amd_cores_fix:
  assumes "cpu_specs_amd_get_cores_info cpuidex ctx s = Inr s2"
    and "threads_per_core t = threads_per_core s2" and "core_count t = core_count s2"
  shows "cpu_specs_amd_get_cores_info cpuidex ctx t = Inr t"
  using assms
  by (auto simp: cpu_specs_amd_get_cores_info_def Let_def split: if_splits intro!: cpu_specs_eqI)

text \<open>Two runs of a decoder from states that agree on what the decoder reads.\<close>

lemma intel_cache_descriptor_two:
  assumes "intel_cache_descriptor out s = Inr s1"
    and "cache_line_size t = cache_line_size s" and "threads_per_core t = threads_per_core s"
    and "core_count t = core_count s"
  shows "\<exists>t1. intel_cache_descriptor out t = Inr t1
     \<and> cache_line_size t1 = cache_line_size t \<and> threads_per_core t1 = threads_per_core t
     \<and> core_count t1 = core_count t \<and> instructions t1 = instructions t
     \<and> (\<forall>l. cache_level_specs t1 l = cache_level_specs s1 l
           \<or> (cache_level_specs t1 l = cache_level_specs t l
              \<and> cache_level_specs s1 l = cache_level_specs s l))"
  using assms
  by (auto simp: intel_cache_descriptor_def Let_def store_data_cache_size_def
      store_attached_core_count_def split: option.splits if_splits intro!: cache_entry_eqI)

lemma amd_cache_descriptor_two:
  assumes "amd_cache_descriptor out s = Inr s1"
    and "cache_line_size t = cache_line_size s" and "threads_per_core t = threads_per_core s"
    and "core_count t = core_count s"
  shows "\<exists>t1. amd_cache_descriptor out t = Inr t1
     \<and> cache_line_size t1 = cache_line_size t \<and> threads_per_core t1 = threads_per_core t
     \<and> core_count t1 = core_count t \<and> instructions t1 = instructions t
     \<and> (\<forall>l. cache_level_specs t1 l = cache_level_specs s1 l
           \<or> (cache_level_specs t1 l = cache_level_specs t l
              \<and> cache_level_specs s1 l = cache_level_specs s l))"
  using assms
  by (auto simp: amd_cache_descriptor_def Let_def store_data_cache_size_def
      store_attached_core_count_def split: option.splits if_splits intro!: cache_entry_eqI)


lemma intel_caches_loop_two:
  assumes "intel_caches_loop cpuidex subfunc s = Inr s'"
    and "cache_line_size t = cache_line_size s" and "threads_per_core t = threads_per_core s"
    and "core_count t = core_count s"
  shows "\<exists>t'. intel_caches_loop cpuidex subfunc t = Inr t'
     \<and> cache_line_size t' = cache_line_size t \<and> threads_per_core t' = threads_per_core t
     \<and> core_count t' = core_count t \<and> instructions t' = instructions t
     \<and> (\<forall>l. cache_level_specs t' l = cache_level_specs s' l
           \<or> (cache_level_specs t' l = cache_level_specs t l
              \<and> cache_level_specs s' l = cache_level_specs s l))"
  using assms
proof (induction cpuidex subfunc s arbitrary: t rule: intel_caches_loop.induct)
  case (1 cpuidex subfunc s)
  let ?out = "cpuidex 4 subfunc"
  show ?case
  proof (cases "?out EAX AND 0xF \<noteq> 0")
    case False
    with "1.prems"(1) show ?thesis
      by (simp add: intel_caches_loop.simps [of cpuidex subfunc])
  next
    case more: True
    with "1.prems"(1) obtain s1
      where d: "(if ?out EAX AND 1 \<noteq> 0 then intel_cache_descriptor ?out s else Inr s) = Inr s1"
        and nm: "subfunc \<noteq> 0x7FFFFFFF"
        and run: "intel_caches_loop cpuidex (subfunc + 1) s1 = Inr s'"
      by (auto simp: intel_caches_loop.simps [of cpuidex subfunc s] Let_def
          split: sum.splits if_splits)
    have "\<exists>t1. (if ?out EAX AND 1 \<noteq> 0 then intel_cache_descriptor ?out t else Inr t) = Inr t1
       \<and> cache_line_size t1 = cache_line_size t \<and> threads_per_core t1 = threads_per_core t
       \<and> core_count t1 = core_count t \<and> instructions t1 = instructions t
       \<and> cache_line_size s1 = cache_line_size s \<and> threads_per_core s1 = threads_per_core s
       \<and> core_count s1 = core_count s
       \<and> (\<forall>l. cache_level_specs t1 l = cache_level_specs s1 l
             \<or> (cache_level_specs t1 l = cache_level_specs t l
                \<and> cache_level_specs s1 l = cache_level_specs s l))"
    proof (cases "?out EAX AND 1 \<noteq> 0")
      case True
      with d have ds: "intel_cache_descriptor ?out s = Inr s1" by simp
      from intel_cache_descriptor_two [OF ds "1.prems"(2,3,4)]
        intel_cache_descriptor_scalars [OF ds] True
      show ?thesis by auto
    next
      case False
      with d show ?thesis by auto
    qed
    then obtain t1
      where dt: "(if ?out EAX AND 1 \<noteq> 0 then intel_cache_descriptor ?out t else Inr t) = Inr t1"
        and t1: "cache_line_size t1 = cache_line_size t" "threads_per_core t1 = threads_per_core t"
          "core_count t1 = core_count t" "instructions t1 = instructions t"
        and s1: "cache_line_size s1 = cache_line_size s" "threads_per_core s1 = threads_per_core s"
          "core_count s1 = core_count s"
        and rel1: "\<forall>l. cache_level_specs t1 l = cache_level_specs s1 l
             \<or> (cache_level_specs t1 l = cache_level_specs t l
                \<and> cache_level_specs s1 l = cache_level_specs s l)"
      by blast
    have agree: "cache_line_size t1 = cache_line_size s1" "threads_per_core t1 = threads_per_core s1"
      "core_count t1 = core_count s1"
      using t1 s1 "1.prems"(2,3,4) by simp_all
    from "1.IH" [OF refl more d nm run agree] obtain t'
      where rt: "intel_caches_loop cpuidex (subfunc + 1) t1 = Inr t'"
        and t': "cache_line_size t' = cache_line_size t1" "threads_per_core t' = threads_per_core t1"
          "core_count t' = core_count t1" "instructions t' = instructions t1"
        and rel2: "\<forall>l. cache_level_specs t' l = cache_level_specs s' l
             \<or> (cache_level_specs t' l = cache_level_specs t1 l
                \<and> cache_level_specs s' l = cache_level_specs s1 l)"
      by blast
    have "intel_caches_loop cpuidex subfunc t = Inr t'"
      using more dt nm rt by (simp add: intel_caches_loop.simps [of cpuidex subfunc t] Let_def)
    moreover have "\<forall>l. cache_level_specs t' l = cache_level_specs s' l
             \<or> (cache_level_specs t' l = cache_level_specs t l
                \<and> cache_level_specs s' l = cache_level_specs s l)"
      using rel1 rel2 by metis
    ultimately show ?thesis
      using t' t1 by simp
  qed
qed

lemma amd_caches_loop_two:
  assumes "amd_caches_loop cpuidex subfunc s = Inr s'"
    and "cache_line_size t = cache_line_size s" and "threads_per_core t = threads_per_core s"
    and "core_count t = core_count s"
  shows "\<exists>t'. amd_caches_loop cpuidex subfunc t = Inr t'
     \<and> cache_line_size t' = cache_line_size t \<and> threads_per_core t' = threads_per_core t
     \<and> core_count t' = core_count t \<and> instructions t' = instructions t
     \<and> (\<forall>l. cache_level_specs t' l = cache_level_specs s' l
           \<or> (cache_level_specs t' l = cache_level_specs t l
              \<and> cache_level_specs s' l = cache_level_specs s l))"
  using assms
proof (induction cpuidex subfunc s arbitrary: t rule: amd_caches_loop.induct)
  case (1 cpuidex subfunc s)
  let ?out = "cpuidex 0x8000001D subfunc"
  from "1.prems"(1) obtain s1
    where d: "(if ?out EAX AND 1 \<noteq> 0 then amd_cache_descriptor ?out s else Inr s) = Inr s1"
      and nm: "subfunc \<noteq> 0x7FFFFFFF"
      and rest: "if cpuidex 0x8000001D (subfunc + 1) EAX AND 0xF \<noteq> 0
                 then amd_caches_loop cpuidex (subfunc + 1) s1 = Inr s' else s' = s1"
    by (auto simp: amd_caches_loop.simps [of cpuidex subfunc s] Let_def
        split: sum.splits if_splits)
  have "\<exists>t1. (if ?out EAX AND 1 \<noteq> 0 then amd_cache_descriptor ?out t else Inr t) = Inr t1
     \<and> cache_line_size t1 = cache_line_size t \<and> threads_per_core t1 = threads_per_core t
     \<and> core_count t1 = core_count t \<and> instructions t1 = instructions t
     \<and> cache_line_size s1 = cache_line_size s \<and> threads_per_core s1 = threads_per_core s
     \<and> core_count s1 = core_count s
     \<and> (\<forall>l. cache_level_specs t1 l = cache_level_specs s1 l
           \<or> (cache_level_specs t1 l = cache_level_specs t l
              \<and> cache_level_specs s1 l = cache_level_specs s l))"
  proof (cases "?out EAX AND 1 \<noteq> 0")
    case True
    with d have ds: "amd_cache_descriptor ?out s = Inr s1" by simp
    from amd_cache_descriptor_two [OF ds "1.prems"(2,3,4)]
      amd_cache_descriptor_scalars [OF ds] True
    show ?thesis by auto
  next
    case False
    with d show ?thesis by auto
  qed
  then obtain t1
    where dt: "(if ?out EAX AND 1 \<noteq> 0 then amd_cache_descriptor ?out t else Inr t) = Inr t1"
      and t1: "cache_line_size t1 = cache_line_size t" "threads_per_core t1 = threads_per_core t"
        "core_count t1 = core_count t" "instructions t1 = instructions t"
      and s1: "cache_line_size s1 = cache_line_size s" "threads_per_core s1 = threads_per_core s"
        "core_count s1 = core_count s"
      and rel1: "\<forall>l. cache_level_specs t1 l = cache_level_specs s1 l
           \<or> (cache_level_specs t1 l = cache_level_specs t l
              \<and> cache_level_specs s1 l = cache_level_specs s l)"
    by blast
  show ?case
  proof (cases "cpuidex 0x8000001D (subfunc + 1) EAX AND 0xF \<noteq> 0")
    case False
    with rest have "s' = s1" by simp
    moreover have "amd_caches_loop cpuidex subfunc t = Inr t1"
      using False dt nm by (simp add: amd_caches_loop.simps [of cpuidex subfunc t] Let_def)
    ultimately show ?thesis
      using t1 rel1 by simp
  next
    case True
    with rest have run: "amd_caches_loop cpuidex (subfunc + 1) s1 = Inr s'" by simp
    have agree: "cache_line_size t1 = cache_line_size s1" "threads_per_core t1 = threads_per_core s1"
      "core_count t1 = core_count s1"
      using t1 s1 "1.prems"(2,3,4) by simp_all
    from "1.IH" [OF refl d nm True run agree] obtain t'
      where rt: "amd_caches_loop cpuidex (subfunc + 1) t1 = Inr t'"
        and t': "cache_line_size t' = cache_line_size t1" "threads_per_core t' = threads_per_core t1"
          "core_count t' = core_count t1" "instructions t' = instructions t1"
        and rel2: "\<forall>l. cache_level_specs t' l = cache_level_specs s' l
             \<or> (cache_level_specs t' l = cache_level_specs t1 l
                \<and> cache_level_specs s' l = cache_level_specs s1 l)"
      by blast
    have "amd_caches_loop cpuidex subfunc t = Inr t'"
      using True dt nm rt by (simp add: amd_caches_loop.simps [of cpuidex subfunc t] Let_def)
    moreover have "\<forall>l. cache_level_specs t' l = cache_level_specs s' l
             \<or> (cache_level_specs t' l = cache_level_specs t l
                \<and> cache_level_specs s' l = cache_level_specs s l)"
      using rel1 rel2 by metis
    ultimately show ?thesis
      using t' t1 by simp
  qed
qed

lemma intel_caches_fix:
  assumes "cpu_specs_intel_get_caches_info cpuidex ctx s2 = Inr s3"
    and "cache_level_specs t = cache_level_specs s3" and "cache_line_size t = cache_line_size s3"
    and "threads_per_core t = threads_per_core s3" and "core_count t = core_count s3"
  shows "cpu_specs_intel_get_caches_info cpuidex ctx t = Inr t"
proof (cases "0x4 \<le> max_standard_func ctx")
  case False
  then show ?thesis
    by (simp add: cpu_specs_intel_get_caches_info_def)
next
  case True
  let ?c0 = "(cpuidex 0x4 0 EBX AND 0x7F) + 1"
  from True assms(1) have run: "intel_caches_loop cpuidex 0 (s2\<lparr>cache_line_size := ?c0\<rparr>) = Inr s3"
    by (simp add: cpu_specs_intel_get_caches_info_def Let_def)
  from intel_caches_loop_scalars [OF run]
  have s3: "cache_line_size s3 = ?c0" "threads_per_core s3 = threads_per_core s2"
    "core_count s3 = core_count s2"
    by simp_all
  have t: "t\<lparr>cache_line_size := ?c0\<rparr> = t"
    using assms(3) s3(1) by simp
  from intel_caches_loop_two [OF run, of t] assms(3,4,5) s3 obtain t'
    where rt: "intel_caches_loop cpuidex 0 t = Inr t'"
      and t': "cache_line_size t' = cache_line_size t" "threads_per_core t' = threads_per_core t"
        "core_count t' = core_count t" "instructions t' = instructions t"
      and rel: "\<forall>l. cache_level_specs t' l = cache_level_specs s3 l
             \<or> (cache_level_specs t' l = cache_level_specs t l
                \<and> cache_level_specs s3 l = cache_level_specs (s2\<lparr>cache_line_size := ?c0\<rparr>) l)"
    by auto
  from rel assms(2) have "cache_level_specs t' = cache_level_specs t"
    by (auto simp: fun_eq_iff)
  with t' have "t' = t"
    by (intro cpu_specs_eqI)
  with rt t True show ?thesis
    by (simp add: cpu_specs_intel_get_caches_info_def Let_def)
qed

lemma amd_caches_fix:
  assumes "cpu_specs_amd_get_caches_info cpuidex ctx s2 = Inr s3"
    and "cache_level_specs t = cache_level_specs s3" and "cache_line_size t = cache_line_size s3"
    and "threads_per_core t = threads_per_core s3" and "core_count t = core_count s3"
  shows "cpu_specs_amd_get_caches_info cpuidex ctx t = Inr t"
proof (cases "0x8000001D \<le> max_extended_func ctx")
  case False
  with assms show ?thesis
    by (auto simp: cpu_specs_amd_get_caches_info_def Let_def store_data_cache_size_def
        store_attached_core_count_def fun_eq_iff split: if_splits
        intro!: cpu_specs_eqI cache_entry_eqI)
next
  case ext: True
  show ?thesis
  proof (cases "cpuidex 0x80000001 0 ECX AND push_bit 22 1 \<noteq> 0")
    case False
    with ext show ?thesis
      by (simp add: cpu_specs_amd_get_caches_info_def Let_def)
  next
    case True
    let ?c0 = "(cpuidex 0x8000001D 0 EBX AND 0x7F) + 1"
    from True ext assms(1)
    have run: "amd_caches_loop cpuidex 0 (s2\<lparr>cache_line_size := ?c0\<rparr>) = Inr s3"
      by (simp add: cpu_specs_amd_get_caches_info_def Let_def)
    from amd_caches_loop_scalars [OF run]
    have s3: "cache_line_size s3 = ?c0" "threads_per_core s3 = threads_per_core s2"
      "core_count s3 = core_count s2"
      by simp_all
    have t: "t\<lparr>cache_line_size := ?c0\<rparr> = t"
      using assms(3) s3(1) by simp
    from amd_caches_loop_two [OF run, of t] assms(3,4,5) s3 obtain t'
      where rt: "amd_caches_loop cpuidex 0 t = Inr t'"
        and t': "cache_line_size t' = cache_line_size t" "threads_per_core t' = threads_per_core t"
          "core_count t' = core_count t" "instructions t' = instructions t"
        and rel: "\<forall>l. cache_level_specs t' l = cache_level_specs s3 l
               \<or> (cache_level_specs t' l = cache_level_specs t l
                  \<and> cache_level_specs s3 l = cache_level_specs (s2\<lparr>cache_line_size := ?c0\<rparr>) l)"
      by auto
    from rel assms(2) have "cache_level_specs t' = cache_level_specs t"
      by (auto simp: fun_eq_iff)
    with t' have "t' = t"
      by (intro cpu_specs_eqI)
    with rt t True ext show ?thesis
      by (simp add: cpu_specs_amd_get_caches_info_def Let_def)
  qed
qed

lemma intel_caches_fields:
  assumes "cpu_specs_intel_get_caches_info cpuidex ctx s = Inr s'"
  shows "threads_per_core s' = threads_per_core s \<and> core_count s' = core_count s
       \<and> instructions s' = instructions s"
  using intel_caches_bound [OF assms] by simp

lemma cpu_specs_init_idem:
  assumes "cpu_specs_init available cpuidex s = Inr s'"
  shows "cpu_specs_init available cpuidex s' = Inr s'"
proof (cases available)
  case False
  with assms show ?thesis
    by (simp add: cpu_specs_init_def)
next
  case True
  define ctx where "ctx = \<lparr>max_standard_func = cpuidex 0x0 0x0 EAX,
                           max_extended_func = cpuidex 0x80000000 0x0 EAX\<rparr>"
  define s1 where "s1 = cpu_specs_get_common_instructions cpuidex ctx s"
  have neq: "CPU_MANUFACTURER_INTEL \<noteq> CPU_MANUFACTURER_AMD"
    by (simp add: CPU_MANUFACTURER_INTEL_def CPU_MANUFACTURER_AMD_def)
  consider (amd) "cpuidex 0x0 0x0 ECX = CPU_MANUFACTURER_AMD"
    | (intel) "cpuidex 0x0 0x0 ECX = CPU_MANUFACTURER_INTEL"
    | (other) "cpuidex 0x0 0x0 ECX \<noteq> CPU_MANUFACTURER_AMD"
        "cpuidex 0x0 0x0 ECX \<noteq> CPU_MANUFACTURER_INTEL"
    by blast
  then show ?thesis
  proof cases
    case other
    with assms True have s': "s' = s1"
      by (simp add: cpu_specs_init_def Let_def ctx_def s1_def)
    have "instructions (cpu_specs_get_common_instructions cpuidex ctx s') = instructions s'"
      by (rule common_instructions_idem) (simp add: s' s1_def)
    then have "cpu_specs_get_common_instructions cpuidex ctx s' = s'"
      using common_instructions_frame [of cpuidex ctx s'] by simp
    with other True show ?thesis
      by (simp add: cpu_specs_init_def Let_def ctx_def)
  next
    case intel
    with assms True neq obtain s2 s3
      where c: "cpu_specs_intel_get_cores_info cpuidex ctx s1 = Inr s2"
        and k: "cpu_specs_intel_get_caches_info cpuidex ctx s2 = Inr s3"
        and i: "s' = cpu_specs_intel_get_instructions cpuidex ctx s3"
      by (auto simp: cpu_specs_init_def Let_def ctx_def s1_def split: sum.splits)
    have i3: "instructions s3 = instructions s1"
      using intel_cores_fields [OF c] intel_caches_fields [OF k] by simp
    have f3: "cache_level_specs s' = cache_level_specs s3" "cache_line_size s' = cache_line_size s3"
      "threads_per_core s' = threads_per_core s3" "core_count s' = core_count s3"
      by (simp_all add: i intel_instructions_fields)
    have f2: "threads_per_core s' = threads_per_core s2" "core_count s' = core_count s2"
      using f3 intel_caches_fields [OF k] by simp_all
    have "instructions (cpu_specs_get_common_instructions cpuidex ctx s') = instructions s'"
      by (rule common_instructions_after_intel [where u = s3 and s = s])
         (simp_all add: i i3 s1_def)
    then have m: "cpu_specs_get_common_instructions cpuidex ctx s' = s'"
      using common_instructions_frame [of cpuidex ctx s'] by simp
    have c': "cpu_specs_intel_get_cores_info cpuidex ctx s' = Inr s'"
      by (rule intel_cores_fix [OF c f2])
    have k': "cpu_specs_intel_get_caches_info cpuidex ctx s' = Inr s'"
      by (rule intel_caches_fix [OF k f3])
    have "instructions (cpu_specs_intel_get_instructions cpuidex ctx s') = instructions s'"
      by (rule intel_instructions_idem [where u = s3]) (simp add: i)
    then have i': "cpu_specs_intel_get_instructions cpuidex ctx s' = s'"
      using intel_instructions_only [of cpuidex ctx s'] by simp
    from intel neq True m c' k' i' show ?thesis
      by (simp add: cpu_specs_init_def Let_def ctx_def)
  next
    case amd
    with assms True obtain s2 s3
      where c: "cpu_specs_amd_get_cores_info cpuidex ctx s1 = Inr s2"
        and k: "cpu_specs_amd_get_caches_info cpuidex ctx s2 = Inr s3"
        and i: "s' = cpu_specs_amd_get_instructions cpuidex ctx s3"
      by (auto simp: cpu_specs_init_def Let_def ctx_def s1_def split: sum.splits)
    have i3: "instructions s3 = instructions s1"
      using amd_cores_fields [OF c] amd_caches_scalars [OF k] by simp
    have f3: "cache_level_specs s' = cache_level_specs s3" "cache_line_size s' = cache_line_size s3"
      "threads_per_core s' = threads_per_core s3" "core_count s' = core_count s3"
      by (simp_all add: i amd_instructions_fields)
    have f2: "threads_per_core s' = threads_per_core s2" "core_count s' = core_count s2"
      using f3 amd_caches_scalars [OF k] by simp_all
    have "instructions (cpu_specs_get_common_instructions cpuidex ctx s') = instructions s'"
      by (rule common_instructions_after_amd [where u = s3 and s = s])
         (simp_all add: i i3 s1_def)
    then have m: "cpu_specs_get_common_instructions cpuidex ctx s' = s'"
      using common_instructions_frame [of cpuidex ctx s'] by simp
    have c': "cpu_specs_amd_get_cores_info cpuidex ctx s' = Inr s'"
      by (rule amd_cores_fix [OF c f2])
    have k': "cpu_specs_amd_get_caches_info cpuidex ctx s' = Inr s'"
      by (rule amd_caches_fix [OF k f3])
    have "instructions (cpu_specs_amd_get_instructions cpuidex ctx s') = instructions s'"
      by (rule amd_instructions_idem [where u = s3]) (simp add: i)
    then have i': "cpu_specs_amd_get_instructions cpuidex ctx s' = s'"
      using amd_instructions_only [of cpuidex ctx s'] by simp
    from amd True m c' k' i' show ?thesis
      by (simp add: cpu_specs_init_def Let_def ctx_def)
  qed
qed

lemma store_name:
  "length buf = 48 \<Longrightarrow>
   store_cpuid_out 32 r3 (store_cpuid_out 16 r2 (store_cpuid_out 0 r1 buf)) =
     u32_bytes (r1 EAX) @ u32_bytes (r1 EBX) @ u32_bytes (r1 ECX) @ u32_bytes (r1 EDX)
     @ u32_bytes (r2 EAX) @ u32_bytes (r2 EBX) @ u32_bytes (r2 ECX) @ u32_bytes (r2 EDX)
     @ u32_bytes (r3 EAX) @ u32_bytes (r3 EBX) @ u32_bytes (r3 ECX) @ u32_bytes (r3 EDX)"
  by (simp add: store_cpuid_out_def store_u32_def)



lemma identity_name:
  "length (name c) = 48 \<Longrightarrow>
   name (cpu_identity_init True cpuidex c) =
     (if 0x80000004 \<le> cpuidex 0x80000000 0x0 EAX
      then store_cpuid_out 32 (cpuidex 0x80000004 0x0)
             (store_cpuid_out 16 (cpuidex 0x80000003 0x0)
               (store_cpuid_out 0 (cpuidex 0x80000002 0x0) (replicate 48 0)))
      else name c)"
  by (simp add: cpu_identity_init_def Let_def store_name)

lemma identity_name_length:
  "length (name c) = 48 \<Longrightarrow> length (name (cpu_identity_init True cpuidex c)) = 48"
  by (simp add: identity_name store_name)

lemma cpu_identity_eqI:
  "family a = family b \<Longrightarrow> model a = model b \<Longrightarrow> stepping a = stepping b \<Longrightarrow>
   manufacturer a = manufacturer b \<Longrightarrow> name a = name b \<Longrightarrow> a = b" for a b :: cpu_identity
  by simp

lemma cpu_identity_init_idem:
  assumes "cpu_identity_sized c"
  shows "cpu_identity_init available cpuidex (cpu_identity_init available cpuidex c) =
     cpu_identity_init available cpuidex c"
proof (cases available)
  case False
  then show ?thesis by (simp add: cpu_identity_init_def)
next
  case True
  let ?c' = "cpu_identity_init True cpuidex c"
  from assms have len: "length (manufacturer c) = 12" "length (name c) = 48"
    by (simp_all add: cpu_identity_sized_def)
  have len': "length (manufacturer ?c') = 12" "length (name ?c') = 48"
    by (simp_all add: identity_manufacturer [OF len(1)] identity_name_length [OF len(2)])
  have "cpu_identity_init True cpuidex ?c' = ?c'"
  proof (rule cpu_identity_eqI)
    show "family (cpu_identity_init True cpuidex ?c') = family ?c'"
      by (simp only: identity_family)
    show "model (cpu_identity_init True cpuidex ?c') = model ?c'"
      by (simp only: identity_model [OF len(1)] identity_model [OF len'(1)])
    show "stepping (cpu_identity_init True cpuidex ?c') = stepping ?c'"
      by (simp only: identity_stepping)
    show "manufacturer (cpu_identity_init True cpuidex ?c') = manufacturer ?c'"
      by (simp only: identity_manufacturer [OF len(1)] identity_manufacturer [OF len'(1)])
    show "name (cpu_identity_init True cpuidex ?c') = name ?c'"
      by (simp only: identity_name [OF len(2)] identity_name [OF len'(2)] if_cancel
          split: if_splits) simp
  qed
  with True show ?thesis by simp
qed

subsection \<open>Concrete runs\<close>

lemma intel_sample_run:
  "\<exists>s'. cpu_specs_init True intel_sample (cpu_specs_static ISA_x64) = Inr s'
     \<and> cache_level_specs s' L1 = \<lparr>data_cache_size = 32768, attached_core_count = 1\<rparr>
     \<and> cache_level_specs s' L2 = \<lparr>data_cache_size = 262144, attached_core_count = 1\<rparr>
     \<and> cache_level_specs s' L3 = \<lparr>data_cache_size = 8388608, attached_core_count = 4\<rparr>
     \<and> cache_line_size s' = 64 \<and> threads_per_core s' = 2 \<and> core_count s' = 4
     \<and> instructions s' = 0x37DFF"
  by (simp add: eval_defs)

lemma amd_zen_sample_run:
  "\<exists>s'. cpu_specs_init True amd_zen_sample (cpu_specs_static ISA_x64) = Inr s'
     \<and> cache_level_specs s' L1 = \<lparr>data_cache_size = 32768, attached_core_count = 1\<rparr>
     \<and> cache_level_specs s' L2 = \<lparr>data_cache_size = 524288, attached_core_count = 1\<rparr>
     \<and> cache_level_specs s' L3 = \<lparr>data_cache_size = 16777216, attached_core_count = 8\<rparr>
     \<and> cache_line_size s' = 64 \<and> threads_per_core s' = 2 \<and> core_count s' = 8
     \<and> instructions s' = 0x37DFF"
  by (simp add: eval_defs)

lemma amd_sample_run:
  "\<exists>s'. cpu_specs_init True amd_sample (cpu_specs_static ISA_x86) = Inr s'
     \<and> cache_level_specs s' L1 = \<lparr>data_cache_size = 4096, attached_core_count = 2\<rparr>
     \<and> cache_line_size s' = 64 \<and> threads_per_core s' = 1 \<and> core_count s' = 1"
  by (simp add: eval_defs)

lemmas trace_defs = amd_last_descriptor_def amd_subleaves_read.simps amd_descriptor_level_def
  cache_level_of_index_def sample_defs word_sle_eq s32_div_def

lemma sample_last_descriptors:
  "amd_last_descriptor amd_zen_sample 0 L3 = Some 3"
  "amd_last_descriptor amd_sample 0 L1 = Some 0"
  by (simp_all add: trace_defs)

section \<open>Properties\<close>

text \<open>
  C2. For every instruction bitset, every probed register word, every bit position a
  32-bit register has and every single-flag mask \<open>F = 1 << j\<close>,
  \<open>update_inst_availability\<close> forces flag \<open>F\<close> to the value of the probed bit and leaves
  every other bit of the bitset as it was: with probe bit 0 exactly \<open>F\<close> is cleared, with
  probe bit 1 \<open>F\<close> ends up set. Every decode rule calls it with a constant bit position
  below 32 and one of the flag constants; \<open>common_instructions_bit\<close>,
  \<open>intel_instructions_bit\<close> and \<open>amd_instructions_bit\<close> spell out the outcome rule by rule.
\<close>

theorem update_inst_availability_set_or_clear:
  assumes "unat flag_bit < 32" and "j < 32"
  shows "(bit (update_inst_availability instrs flags flag_bit (push_bit j 1)) j
            \<longleftrightarrow> bit flags (unat flag_bit))
       \<and> (\<forall>k. k \<noteq> j \<longrightarrow>
            (bit (update_inst_availability instrs flags flag_bit (push_bit j 1)) k
               \<longleftrightarrow> bit instrs k))"
  using assms by (auto simp: bit_update_inst_availability bit_simps)

theorem update_inst_availability_set_or_clear_witness:
  "unat (3 :: s32) < 32 \<and> (5 :: nat) < 32
   \<and> \<not> bit (update_inst_availability 0xFF 0 3 (push_bit 5 1)) 5
   \<and> bit (update_inst_availability 0xFF 0 3 (push_bit 5 1)) 4
   \<and> update_inst_availability 0xFF 0 3 (push_bit 5 1) = 0xDF"
  using update_inst_availability_set_or_clear [of 3 5 "0xFF" 0]
  by (simp add: update_inst_availability_def)

text \<open>
  C8. When \<open>cpuid_is_available\<close> returns false, \<open>cpuid_ctx_get\<close> returns \<open>{0, 0}\<close> and
  issues no leaf query. Otherwise it returns \<open>EAX\<close> of leaf 0 and of leaf 0x80000000,
  after exactly those two queries. In both cases \<open>cpu_specs\<close> and \<open>cpu_identity\<close> are
  what they were before the call.
\<close>

theorem cpuid_ctx_get_availability:
  "cpuid_ctx_get False cpuidex p = (\<lparr>max_standard_func = 0, max_extended_func = 0\<rparr>, p)
   \<and> cpuid_ctx_get True cpuidex p =
       (\<lparr>max_standard_func = cpuidex 0x0 0x0 EAX,
         max_extended_func = cpuidex 0x80000000 0x0 EAX\<rparr>,
        p\<lparr>cpuid_queries := cpuid_queries p @ [(0x0, 0x0), (0x80000000, 0x0)]\<rparr>)
   \<and> specs_global (snd (cpuid_ctx_get available cpuidex p)) = specs_global p
   \<and> identity_global (snd (cpuid_ctx_get available cpuidex p)) = identity_global p"
  by (cases available) (simp_all add: cpuid_ctx_get_def cpuidex_recorded_def)

text \<open>
  C9. In both cache decoders the store goes through index \<open>level_field - 1\<close>, where
  \<open>level_field\<close> is the 2-bit field \<open>(EAX >> 5) & 3\<close> of the descriptor. That index lies in
  the array, that is in \<open>[0, CACHE_LEVEL_COUNT)\<close>, exactly when the field is not zero: a
  data or unified descriptor of level 0 stores outside the array, and a descriptor that
  is processed changes no entry but the one at that index.
\<close>

theorem cache_index_in_bounds_iff_level_nonzero:
  "(cache_level_of_index idx \<noteq> None \<longleftrightarrow> 0 <=s idx \<and> idx <s CACHE_LEVEL_COUNT)
   \<and> (cache_level_of_index ((signed_drop_bit 5 (out EAX) AND 3) - 1) \<noteq> None
        \<longleftrightarrow> signed_drop_bit 5 (out EAX) AND 3 \<noteq> 0)
   \<and> (amd_cache_descriptor out s = Inl IndexOutOfBounds
        \<longleftrightarrow> signed_drop_bit 5 (out EAX) AND 3 = 0)
   \<and> (intel_cache_descriptor out s = Inl IndexOutOfBounds
        \<longleftrightarrow> signed_drop_bit 5 (out EAX) AND 3 = 0)
   \<and> (\<forall>s'. amd_cache_descriptor out s = Inr s' \<longrightarrow>
         (\<exists>l. cache_level_of_index ((signed_drop_bit 5 (out EAX) AND 3) - 1) = Some l
            \<and> (\<forall>l'. l' \<noteq> l \<longrightarrow> cache_level_specs s' l' = cache_level_specs s l')))
   \<and> (\<forall>s'. intel_cache_descriptor out s = Inr s' \<longrightarrow>
         (\<exists>l. cache_level_of_index ((signed_drop_bit 5 (out EAX) AND 3) - 1) = Some l
            \<and> (\<forall>l'. l' \<noteq> l \<longrightarrow> cache_level_specs s' l' = cache_level_specs s l')))"
  by (intro conjI allI impI)
     (simp_all add: cache_level_of_index_range cache_level_of_index_pred
        amd_cache_descriptor_oob intel_cache_descriptor_oob
        amd_cache_descriptor_frame intel_cache_descriptor_frame del: not_None_eq)

theorem cache_index_in_bounds_iff_level_nonzero_witness:
  "signed_drop_bit 5 (intel_sample 4 2 EAX) AND 3 \<noteq> 0
   \<and> (\<exists>s'. amd_cache_descriptor (intel_sample 4 2) (cpu_specs_static ISA_x86) = Inr s'
          \<and> cache_level_of_index ((signed_drop_bit 5 (intel_sample 4 2 EAX) AND 3) - 1) = Some L2
          \<and> cache_level_specs s' L1 = cache_level_specs (cpu_specs_static ISA_x86) L1)
   \<and> (\<exists>s'. intel_cache_descriptor (intel_sample 4 2) (cpu_specs_static ISA_x86) = Inr s'
          \<and> cache_level_specs s' L3 = cache_level_specs (cpu_specs_static ISA_x86) L3)
   \<and> signed_drop_bit 5 (cpuid_zero 4 0 EAX) AND 3 = 0
   \<and> amd_cache_descriptor (cpuid_zero 4 0) (cpu_specs_static ISA_x86) = Inl IndexOutOfBounds
   \<and> intel_cache_descriptor (cpuid_zero 4 0) (cpu_specs_static ISA_x86) = Inl IndexOutOfBounds"
  using cache_index_in_bounds_iff_level_nonzero [of 1 "intel_sample 4 2" "cpu_specs_static ISA_x86"]
    cache_index_in_bounds_iff_level_nonzero [of 1 "cpuid_zero 4 0" "cpu_specs_static ISA_x86"]
  by (simp add: eval_defs)

text \<open>
  C10. The divisor of every division by \<open>threads_per_core\<close> is the value the hardware
  reported. On the leaf-0xB path of the AMD topology decoder and the leaf-0xB/0x1F path
  of the Intel one, the division is by zero exactly when the low 16 bits of \<open>EBX\<close> of
  subleaf 0 are zero, and is carried out with that field as the divisor otherwise. In
  both cache decoders a descriptor whose index is in range divides by zero exactly when
  the stored \<open>threads_per_core\<close> is zero.
\<close>

theorem threads_per_core_division_precondition:
  "(0xB \<le> max_standard_func ctx \<longrightarrow>
      (cpu_specs_amd_get_cores_info cpuidex ctx s = Inl DivideByZero
         \<longleftrightarrow> cpuidex 0xB 0 EBX AND 0xFFFF = 0)
    \<and> (cpu_specs_intel_get_cores_info cpuidex ctx s = Inl DivideByZero
         \<longleftrightarrow> cpuidex (if 0x1F \<le> max_standard_func ctx then 0x1F else 0xB) 0 EBX AND 0xFFFF = 0)
    \<and> (cpuidex 0xB 0 EBX AND 0xFFFF \<noteq> 0 \<longrightarrow>
          cpu_specs_amd_get_cores_info cpuidex ctx s =
            Inr (s\<lparr>threads_per_core := cpuidex 0xB 0 EBX AND 0xFFFF,
                   core_count := s32_div (cpuidex 0xB 1 EBX AND 0xFFFF)
                                         (cpuidex 0xB 0 EBX AND 0xFFFF)\<rparr>)))
   \<and> (signed_drop_bit 5 (out EAX) AND 3 \<noteq> 0 \<longrightarrow>
        (amd_cache_descriptor out s = Inl DivideByZero \<longleftrightarrow> threads_per_core s = 0)
      \<and> (intel_cache_descriptor out s = Inl DivideByZero \<longleftrightarrow> threads_per_core s = 0))"
  using amd_cores_div [of ctx cpuidex s] intel_cores_div [of ctx cpuidex s]
    amd_cache_descriptor_div [of out s] intel_cache_descriptor_div [of out s]
  by (auto simp: cpu_specs_amd_get_cores_info_def Let_def)

theorem threads_per_core_division_precondition_witness:
  "0xB \<le> max_standard_func \<lparr>max_standard_func = 0xB, max_extended_func = 0\<rparr>
   \<and> cpuid_zero 0xB 0 EBX AND 0xFFFF = 0
   \<and> cpu_specs_amd_get_cores_info cpuid_zero \<lparr>max_standard_func = 0xB, max_extended_func = 0\<rparr>
         (cpu_specs_static ISA_x86) = Inl DivideByZero
   \<and> cpu_specs_intel_get_cores_info cpuid_zero \<lparr>max_standard_func = 0xB, max_extended_func = 0\<rparr>
         (cpu_specs_static ISA_x86) = Inl DivideByZero
   \<and> signed_drop_bit 5 (intel_sample 4 2 EAX) AND 3 \<noteq> 0
   \<and> amd_cache_descriptor (intel_sample 4 2) ((cpu_specs_static ISA_x86)\<lparr>threads_per_core := 0\<rparr>)
         = Inl DivideByZero
   \<and> intel_cache_descriptor (intel_sample 4 2) ((cpu_specs_static ISA_x86)\<lparr>threads_per_core := 0\<rparr>)
         = Inl DivideByZero"
  using threads_per_core_division_precondition
      [of "\<lparr>max_standard_func = 0xB, max_extended_func = 0\<rparr>" cpuid_zero
          "(cpu_specs_static ISA_x86)\<lparr>threads_per_core := 0\<rparr>" "intel_sample 4 2"]
    threads_per_core_division_precondition
      [of "\<lparr>max_standard_func = 0xB, max_extended_func = 0\<rparr>" cpuid_zero
          "cpu_specs_static ISA_x86" "intel_sample 4 2"]
  by (simp add: eval_defs)

text \<open>
  C1, as stated, fails on an x64 build. With the probe returning false,
  \<open>cpu_specs_init\<close> and \<open>cpu_identity_init\<close> write nothing, so the singletons keep the
  values of their static initialisers, and under \<open>ISA_x64\<close> the initialiser of
  \<open>instructions\<close> is \<open>SSE1 | SSE2\<close>, not zero.
\<close>

theorem unavailable_x64_flags_not_zero:
  "cpu_specs_init False cpuid_zero (cpu_specs_static ISA_x64) = Inr (cpu_specs_static ISA_x64)
   \<and> cpu_identity_init False cpuid_zero cpu_identity_static = cpu_identity_static
   \<and> instructions (cpu_specs_static ISA_x64) = SSE1 OR SSE2
   \<and> instructions (cpu_specs_static ISA_x64) \<noteq> 0"
  by (simp add: cpu_specs_init_def cpu_identity_init_def cpu_specs_static_def flag_defs)

text \<open>
  C1, amended. With the probe returning false, \<open>cpu_specs_init\<close> and
  \<open>cpu_identity_init\<close> leave both singletons as they were. The static initialisers they
  start from are: L1 = 4 KiB with 1 attached core, L2 and L3 of size 0 with 0 attached
  cores, cache line 64 bytes, 1 thread per core, 1 core, instruction flags 0 on an x86
  build and \<open>SSE1 | SSE2\<close> on an x64 build; family, model and stepping 0, manufacturer and
  name \<open>"Unknown"\<close> padded with zero bytes.
\<close>

theorem unavailable_leaves_profiles:
  "cpu_specs_init False cpuidex s = Inr s
   \<and> cpu_identity_init False cpuidex c = c
   \<and> data_cache_size (cache_level_specs (cpu_specs_static target) L1) = 4096
   \<and> attached_core_count (cache_level_specs (cpu_specs_static target) L1) = 1
   \<and> data_cache_size (cache_level_specs (cpu_specs_static target) L2) = 0
   \<and> attached_core_count (cache_level_specs (cpu_specs_static target) L2) = 0
   \<and> data_cache_size (cache_level_specs (cpu_specs_static target) L3) = 0
   \<and> attached_core_count (cache_level_specs (cpu_specs_static target) L3) = 0
   \<and> cache_line_size (cpu_specs_static target) = 64
   \<and> threads_per_core (cpu_specs_static target) = 1
   \<and> core_count (cpu_specs_static target) = 1
   \<and> instructions (cpu_specs_static target) =
       (case target of ISA_x64 \<Rightarrow> SSE1 OR SSE2 | ISA_x86 \<Rightarrow> 0)
   \<and> family cpu_identity_static = 0
   \<and> model cpu_identity_static = 0
   \<and> stepping cpu_identity_static = 0
   \<and> manufacturer cpu_identity_static = char_array 12 ''Unknown''
   \<and> name cpu_identity_static = char_array 48 ''Unknown''"
  by (simp add: cpu_specs_init_def cpu_identity_init_def cpu_specs_static_def
      cpu_identity_static_def KiB_def)

text \<open>
  C4. When the probe succeeds, \<open>ECX\<close> of leaf 0 is neither vendor constant, the highest
  standard leaf is 1 and the highest extended leaf is 0, \<open>cpu_specs_init\<close> completes and
  changes nothing but \<open>instructions\<close>: the cache levels, the cache line size,
  \<open>threads_per_core\<close> and \<open>core_count\<close> keep their values. Each of the eleven leaf-1 flags
  equals its probed bit, and every other flag, the vendor-exclusive ones included, keeps
  its value, which is zero in the static initialiser of either build.
\<close>

theorem unknown_vendor_frame:
  assumes "cpuidex 0x0 0x0 ECX \<noteq> CPU_MANUFACTURER_AMD"
    and "cpuidex 0x0 0x0 ECX \<noteq> CPU_MANUFACTURER_INTEL"
    and "cpuidex 0x0 0x0 EAX = 1"
    and "cpuidex 0x80000000 0x0 EAX = 0"
  shows "\<exists>s'. cpu_specs_init True cpuidex s = Inr s'
     \<and> cache_level_specs s' = cache_level_specs s
     \<and> cache_line_size s' = cache_line_size s
     \<and> threads_per_core s' = threads_per_core s
     \<and> core_count s' = core_count s
     \<and> (instructions s' AND RDTSCP \<noteq> 0 \<longleftrightarrow> bit (cpuidex 0x1 0x0 EDX) 4)
     \<and> (instructions s' AND SSE1 \<noteq> 0 \<longleftrightarrow> bit (cpuidex 0x1 0x0 EDX) 25)
     \<and> (instructions s' AND SSE2 \<noteq> 0 \<longleftrightarrow> bit (cpuidex 0x1 0x0 EDX) 26)
     \<and> (instructions s' AND SSE3 \<noteq> 0 \<longleftrightarrow> bit (cpuidex 0x1 0x0 ECX) 0)
     \<and> (instructions s' AND SSSE3 \<noteq> 0 \<longleftrightarrow> bit (cpuidex 0x1 0x0 ECX) 9)
     \<and> (instructions s' AND FMA3 \<noteq> 0 \<longleftrightarrow> bit (cpuidex 0x1 0x0 ECX) 12)
     \<and> (instructions s' AND SSE4_1 \<noteq> 0 \<longleftrightarrow> bit (cpuidex 0x1 0x0 ECX) 19)
     \<and> (instructions s' AND SSE4_2 \<noteq> 0 \<longleftrightarrow> bit (cpuidex 0x1 0x0 ECX) 20)
     \<and> (instructions s' AND POPCNT \<noteq> 0 \<longleftrightarrow> bit (cpuidex 0x1 0x0 ECX) 23)
     \<and> (instructions s' AND AVX1 \<noteq> 0 \<longleftrightarrow> bit (cpuidex 0x1 0x0 ECX) 28)
     \<and> (instructions s' AND F16C \<noteq> 0 \<longleftrightarrow> bit (cpuidex 0x1 0x0 ECX) 29)
     \<and> instructions s' AND NOT leaf1_flags = instructions s AND NOT leaf1_flags
     \<and> instructions (cpu_specs_static target) AND NOT leaf1_flags = 0"
proof -
  define ctx where "ctx = \<lparr>max_standard_func = cpuidex 0x0 0x0 EAX,
                           max_extended_func = cpuidex 0x80000000 0x0 EAX\<rparr>"
  define s' where "s' = cpu_specs_get_common_instructions cpuidex ctx s"
  have low: "\<not> 0x7 \<le> max_standard_func ctx"
    using assms(3) by (simp add: ctx_def word_le_nat_alt)
  have run: "cpu_specs_init True cpuidex s = Inr s'"
    using assms(1,2) by (simp add: cpu_specs_init_def Let_def s'_def ctx_def)
  have frame: "cache_level_specs s' = cache_level_specs s" "cache_line_size s' = cache_line_size s"
    "threads_per_core s' = threads_per_core s" "core_count s' = core_count s"
    by (simp_all add: s'_def cpu_specs_get_common_instructions_def Let_def)
  have bits: "bit (instructions s') k \<longleftrightarrow>
    (if k = 17 then bit (cpuidex 1 0 ECX) 29
     else if k = 6 then bit (cpuidex 1 0 ECX) 28
     else if k = 10 then bit (cpuidex 1 0 ECX) 23
     else if k = 5 then bit (cpuidex 1 0 ECX) 20
     else if k = 4 then bit (cpuidex 1 0 ECX) 19
     else if k = 8 then bit (cpuidex 1 0 ECX) 12
     else if k = 3 then bit (cpuidex 1 0 ECX) 9
     else if k = 2 then bit (cpuidex 1 0 ECX) 0
     else if k = 1 then bit (cpuidex 1 0 EDX) 26
     else if k = 0 then bit (cpuidex 1 0 EDX) 25
     else if k = 16 then bit (cpuidex 1 0 EDX) 4
     else bit (instructions s) k)" for k
    unfolding s'_def by (rule common_instructions_leaf1_bit [OF low])
  have flags: "instructions s' AND RDTSCP \<noteq> 0 \<longleftrightarrow> bit (cpuidex 0x1 0x0 EDX) 4"
    "instructions s' AND SSE1 \<noteq> 0 \<longleftrightarrow> bit (cpuidex 0x1 0x0 EDX) 25"
    "instructions s' AND SSE2 \<noteq> 0 \<longleftrightarrow> bit (cpuidex 0x1 0x0 EDX) 26"
    "instructions s' AND SSE3 \<noteq> 0 \<longleftrightarrow> bit (cpuidex 0x1 0x0 ECX) 0"
    "instructions s' AND SSSE3 \<noteq> 0 \<longleftrightarrow> bit (cpuidex 0x1 0x0 ECX) 9"
    "instructions s' AND FMA3 \<noteq> 0 \<longleftrightarrow> bit (cpuidex 0x1 0x0 ECX) 12"
    "instructions s' AND SSE4_1 \<noteq> 0 \<longleftrightarrow> bit (cpuidex 0x1 0x0 ECX) 19"
    "instructions s' AND SSE4_2 \<noteq> 0 \<longleftrightarrow> bit (cpuidex 0x1 0x0 ECX) 20"
    "instructions s' AND POPCNT \<noteq> 0 \<longleftrightarrow> bit (cpuidex 0x1 0x0 ECX) 23"
    "instructions s' AND AVX1 \<noteq> 0 \<longleftrightarrow> bit (cpuidex 0x1 0x0 ECX) 28"
    "instructions s' AND F16C \<noteq> 0 \<longleftrightarrow> bit (cpuidex 0x1 0x0 ECX) 29"
    unfolding flag_defs flag_test by (simp_all add: bits)
  have rest: "instructions s' AND NOT leaf1_flags = instructions s AND NOT leaf1_flags"
    by (rule bit_word_eqI) (simp add: not_leaf1_flags_bit bits)
  have static: "instructions (cpu_specs_static target) AND NOT leaf1_flags = 0"
    by (rule bit_word_eqI)
       (cases target; auto simp: not_leaf1_flags_bit cpu_specs_static_def bit_or_iff bit_flags)
  show ?thesis
    by (rule exI [of _ s']) (simp only: run frame flags rest static simp_thms)
qed

theorem unknown_vendor_frame_witness:
  "unknown_vendor_sample 0x0 0x0 ECX \<noteq> CPU_MANUFACTURER_AMD
   \<and> unknown_vendor_sample 0x0 0x0 ECX \<noteq> CPU_MANUFACTURER_INTEL
   \<and> unknown_vendor_sample 0x0 0x0 EAX = 1
   \<and> unknown_vendor_sample 0x80000000 0x0 EAX = 0
   \<and> (\<exists>s'. cpu_specs_init True unknown_vendor_sample (cpu_specs_static ISA_x64) = Inr s'
         \<and> cache_level_specs s' = cache_level_specs (cpu_specs_static ISA_x64)
         \<and> core_count s' = 1
         \<and> instructions s' AND SSE3 \<noteq> 0
         \<and> instructions s' AND SSSE3 = 0
         \<and> instructions s' AND NOT leaf1_flags = 0)"
proof -
  have a: "unknown_vendor_sample 0x0 0x0 ECX \<noteq> CPU_MANUFACTURER_AMD"
    and b: "unknown_vendor_sample 0x0 0x0 ECX \<noteq> CPU_MANUFACTURER_INTEL"
    and c: "unknown_vendor_sample 0x0 0x0 EAX = 1"
    and d: "unknown_vendor_sample 0x80000000 0x0 EAX = 0"
    by (simp_all add: sample_defs CPU_MANUFACTURER_AMD_def CPU_MANUFACTURER_INTEL_def)
  have e: "bit (unknown_vendor_sample 0x1 0x0 ECX) 0" "\<not> bit (unknown_vendor_sample 0x1 0x0 ECX) 9"
    by (simp_all add: sample_defs)
  have f: "core_count (cpu_specs_static ISA_x64) = 1"
    by (simp add: cpu_specs_static_def)
  from unknown_vendor_frame
      [of unknown_vendor_sample "cpu_specs_static ISA_x64" ISA_x64, OF a b c d]
  obtain s' where "cpu_specs_init True unknown_vendor_sample (cpu_specs_static ISA_x64) = Inr s'"
    and "cache_level_specs s' = cache_level_specs (cpu_specs_static ISA_x64)"
    and "core_count s' = core_count (cpu_specs_static ISA_x64)"
    and "instructions s' AND SSE3 \<noteq> 0 \<longleftrightarrow> bit (unknown_vendor_sample 0x1 0x0 ECX) 0"
    and "instructions s' AND SSSE3 \<noteq> 0 \<longleftrightarrow> bit (unknown_vendor_sample 0x1 0x0 ECX) 9"
    and "instructions s' AND NOT leaf1_flags =
         instructions (cpu_specs_static ISA_x64) AND NOT leaf1_flags"
    and "instructions (cpu_specs_static ISA_x64) AND NOT leaf1_flags = 0"
    by blast
  with a b c d e f show ?thesis
    by simp
qed

text \<open>
  C6. In \<open>cpu_identity_init\<close>, when bits 8-11 of \<open>EAX\<close> of leaf 1 are \<open>0xF\<close>, bits 20-27
  are added to the family (so an extended family of 2 gives 17) and bits 16-19 are OR'ed
  into the upper nibble of the model. When the manufacturer buffer ends in the Intel
  constant and the family is 6, bits 16-19 are OR'ed into the model as well. In every
  other case family and model are the base fields.
\<close>

theorem identity_extended_family_model:
  assumes "cpu_identity_sized c"
  shows "(bit_field 8 11 (cpuidex 1 0 EAX) = 0xF \<longrightarrow>
            family (cpu_identity_init True cpuidex c) = 0xF + bit_field 20 27 (cpuidex 1 0 EAX)
          \<and> model (cpu_identity_init True cpuidex c) =
              bit_field 4 7 (cpuidex 1 0 EAX) OR push_bit 4 (bit_field 16 19 (cpuidex 1 0 EAX)))
       \<and> (cpuidex 0 0 ECX = CPU_MANUFACTURER_INTEL \<and> bit_field 8 11 (cpuidex 1 0 EAX) = 0x6 \<longrightarrow>
            family (cpu_identity_init True cpuidex c) = 0x6
          \<and> model (cpu_identity_init True cpuidex c) =
              bit_field 4 7 (cpuidex 1 0 EAX) OR push_bit 4 (bit_field 16 19 (cpuidex 1 0 EAX)))
       \<and> (bit_field 8 11 (cpuidex 1 0 EAX) \<noteq> 0xF
            \<and> \<not> (cpuidex 0 0 ECX = CPU_MANUFACTURER_INTEL \<and> bit_field 8 11 (cpuidex 1 0 EAX) = 0x6) \<longrightarrow>
            family (cpu_identity_init True cpuidex c) = bit_field 8 11 (cpuidex 1 0 EAX)
          \<and> model (cpu_identity_init True cpuidex c) = bit_field 4 7 (cpuidex 1 0 EAX))"
proof -
  from assms have len: "length (manufacturer c) = 12"
    by (simp add: cpu_identity_sized_def)
  show ?thesis
    by (simp add: identity_family identity_model [OF len])
qed

theorem identity_extended_family_model_witness:
  "cpu_identity_sized cpu_identity_static
   \<and> bit_field 8 11 (amd_sample 1 0 EAX) = 0xF
   \<and> bit_field 20 27 (amd_sample 1 0 EAX) = 2
   \<and> family (cpu_identity_init True amd_sample cpu_identity_static) = 17
   \<and> intel_sample 0 0 ECX = CPU_MANUFACTURER_INTEL
   \<and> bit_field 8 11 (intel_sample 1 0 EAX) = 0x6
   \<and> family (cpu_identity_init True intel_sample cpu_identity_static) = 6
   \<and> model (cpu_identity_init True intel_sample cpu_identity_static) = 0x9E
   \<and> bit_field 8 11 (unknown_vendor_sample 1 0 EAX) = 0x6
   \<and> model (cpu_identity_init True unknown_vendor_sample cpu_identity_static) = 0x9"
proof -
  have sized: "cpu_identity_sized cpu_identity_static"
    by (simp add: cpu_identity_sized_def cpu_identity_static_def char_array_def)
  show ?thesis
    using sized identity_extended_family_model [OF sized, of amd_sample]
      identity_extended_family_model [OF sized, of intel_sample]
      identity_extended_family_model [OF sized, of unknown_vendor_sample]
    by (simp add: sample_defs bit_field_def CPU_MANUFACTURER_INTEL_def)
qed

text \<open>
  C7. \<open>cpu_identity_init\<close> fills the 12-byte manufacturer buffer with the bytes of \<open>EBX\<close>,
  then \<open>EDX\<close>, then \<open>ECX\<close> of leaf 0 (the first, third and second signature register),
  each least significant byte first. For the registers that spell \<open>GenuineIntel\<close> or
  \<open>AuthenticAMD\<close> the buffer is those 12 ASCII bytes, with no terminator among them.
\<close>

theorem manufacturer_register_order:
  assumes "cpu_identity_sized c"
  shows "manufacturer (cpu_identity_init True cpuidex c) =
           u32_bytes (cpuidex 0 0 EBX) @ u32_bytes (cpuidex 0 0 EDX) @ u32_bytes (cpuidex 0 0 ECX)
       \<and> length (manufacturer (cpu_identity_init True cpuidex c)) = 12
       \<and> (cpuidex 0 0 EBX = 0x756E6547 \<and> cpuidex 0 0 EDX = 0x49656E69
            \<and> cpuidex 0 0 ECX = 0x6C65746E \<longrightarrow>
          manufacturer (cpu_identity_init True cpuidex c) = char_array 12 ''GenuineIntel'')
       \<and> (cpuidex 0 0 EBX = 0x68747541 \<and> cpuidex 0 0 EDX = 0x69746E65
            \<and> cpuidex 0 0 ECX = 0x444D4163 \<longrightarrow>
          manufacturer (cpu_identity_init True cpuidex c) = char_array 12 ''AuthenticAMD'')"
proof -
  from assms have len: "length (manufacturer c) = 12"
    by (simp add: cpu_identity_sized_def)
  show ?thesis
    by (simp add: identity_manufacturer [OF len] u32_bytes_def char_array_def)
qed

theorem manufacturer_register_order_witness:
  "cpu_identity_sized cpu_identity_static
   \<and> intel_sample 0 0 EBX = 0x756E6547 \<and> intel_sample 0 0 EDX = 0x49656E69
   \<and> intel_sample 0 0 ECX = 0x6C65746E
   \<and> manufacturer (cpu_identity_init True intel_sample cpu_identity_static) =
       char_array 12 ''GenuineIntel''
   \<and> manufacturer (cpu_identity_init True intel_sample cpu_identity_static) =
       [0x47, 0x65, 0x6E, 0x75, 0x69, 0x6E, 0x65, 0x49, 0x6E, 0x74, 0x65, 0x6C]
   \<and> manufacturer (cpu_identity_init True amd_sample cpu_identity_static) =
       char_array 12 ''AuthenticAMD''"
proof -
  have sized: "cpu_identity_sized cpu_identity_static"
    by (simp add: cpu_identity_sized_def cpu_identity_static_def char_array_def)
  show ?thesis
    using sized manufacturer_register_order [OF sized, of intel_sample]
      manufacturer_register_order [OF sized, of amd_sample]
    by (simp add: sample_defs char_array_def u32_bytes_def)
qed

text \<open>
  C3, as stated, fails in the AMD cache decoder, which stores
  \<open>(sharing field + 1) / threads_per_core\<close> with no comparison against \<open>core_count\<close>. On
  the register table \<open>amd_sample\<close> the pass takes the leaf-0x8000001D path, completes,
  and leaves L1 with 2 attached cores on a processor of 1 core.
\<close>

theorem amd_attached_core_count_above_core_count:
  "amd_sample 0x0 0x0 ECX = CPU_MANUFACTURER_AMD
   \<and> 0x8000001D \<le> amd_sample 0x80000000 0x0 EAX
   \<and> \<not> isl (cpu_specs_init True amd_sample (cpu_specs_static ISA_x86))
   \<and> cache_level_specs (projr (cpu_specs_init True amd_sample (cpu_specs_static ISA_x86))) L1
       \<noteq> cache_level_specs (cpu_specs_static ISA_x86) L1
   \<and> attached_core_count
        (cache_level_specs (projr (cpu_specs_init True amd_sample (cpu_specs_static ISA_x86))) L1) = 2
   \<and> core_count (projr (cpu_specs_init True amd_sample (cpu_specs_static ISA_x86))) = 1
   \<and> \<not> (2 :: s32) <=s 1"
proof -
  from amd_sample_run obtain s'
    where run: "cpu_specs_init True amd_sample (cpu_specs_static ISA_x86) = Inr s'"
      and l1: "cache_level_specs s' L1 = \<lparr>data_cache_size = 4096, attached_core_count = 2\<rparr>"
      and cores: "core_count s' = 1"
    by blast
  have "amd_sample 0x0 0x0 ECX = CPU_MANUFACTURER_AMD"
    and "0x8000001D \<le> amd_sample 0x80000000 0x0 EAX"
    and "cache_level_specs (cpu_specs_static ISA_x86) L1 \<noteq>
          \<lparr>data_cache_size = 4096, attached_core_count = 2\<rparr>"
    and "\<not> (2 :: s32) <=s 1"
    by (simp_all add: sample_defs CPU_MANUFACTURER_AMD_def cpu_specs_static_def word_le_nat_alt
        word_sle_eq)
  with run l1 cores show ?thesis
    by simp
qed

text \<open>
  C3, amended. After a completed pass on the Intel pipeline, every cache level whose
  entry the pass changed has \<open>attached_core_count <= core_count\<close>, whatever the registers
  hold: the leaf-4 decoder stores the smaller of the quotient and \<open>core_count\<close>. After a
  completed pass on the AMD pipeline with leaf 0x8000001D available, every cache level
  whose entry the pass changed holds, unclamped, the quotient
  \<open>(sharing field + 1) / threads_per_core\<close> of the last data or unified descriptor of that
  level among the subleaves the loop read; for such a level
  \<open>attached_core_count <= core_count\<close> holds if and only if that quotient is at most
  \<open>core_count\<close>.
\<close>

theorem attached_core_count_bound:
  assumes "cpu_specs_init True cpuidex s = Inr s'"
  shows "(cpuidex 0x0 0x0 ECX = CPU_MANUFACTURER_INTEL \<longrightarrow>
            (\<forall>l. cache_level_specs s' l \<noteq> cache_level_specs s l \<longrightarrow>
                 attached_core_count (cache_level_specs s' l) <=s core_count s'))
       \<and> (cpuidex 0x0 0x0 ECX = CPU_MANUFACTURER_AMD
            \<and> 0x8000001D \<le> cpuidex 0x80000000 0x0 EAX \<longrightarrow>
            (\<forall>l. cache_level_specs s' l \<noteq> cache_level_specs s l \<longrightarrow>
               (\<exists>n. amd_last_descriptor cpuidex 0 l = Some n
                  \<and> attached_core_count (cache_level_specs s' l) =
                      s32_div ((signed_drop_bit 14 (cpuidex 0x8000001D n EAX) AND 0xFFF) + 1)
                              (threads_per_core s')
                  \<and> (attached_core_count (cache_level_specs s' l) <=s core_count s' \<longleftrightarrow>
                      s32_div ((signed_drop_bit 14 (cpuidex 0x8000001D n EAX) AND 0xFFF) + 1)
                              (threads_per_core s') <=s core_count s'))))"
proof -
  define ctx where "ctx = \<lparr>max_standard_func = cpuidex 0x0 0x0 EAX,
                           max_extended_func = cpuidex 0x80000000 0x0 EAX\<rparr>"
  define s1 where "s1 = cpu_specs_get_common_instructions cpuidex ctx s"
  have neq: "CPU_MANUFACTURER_INTEL \<noteq> CPU_MANUFACTURER_AMD"
    by (simp add: CPU_MANUFACTURER_INTEL_def CPU_MANUFACTURER_AMD_def)
  have intel: "\<forall>l. cache_level_specs s' l \<noteq> cache_level_specs s l \<longrightarrow>
                 attached_core_count (cache_level_specs s' l) <=s core_count s'"
    if vendor: "cpuidex 0x0 0x0 ECX = CPU_MANUFACTURER_INTEL"
  proof -
    from vendor assms neq obtain s2 s3
      where c: "cpu_specs_intel_get_cores_info cpuidex ctx s1 = Inr s2"
        and k: "cpu_specs_intel_get_caches_info cpuidex ctx s2 = Inr s3"
        and i: "s' = cpu_specs_intel_get_instructions cpuidex ctx s3"
      by (auto simp: cpu_specs_init_def Let_def ctx_def s1_def split: sum.splits)
    from intel_cores_fields [OF c] intel_caches_bound [OF k] i
    show ?thesis
      by (simp add: intel_instructions_fields s1_def common_instructions_fields) metis
  qed
  have amd: "\<exists>n. amd_last_descriptor cpuidex 0 l = Some n
        \<and> attached_core_count (cache_level_specs s' l) =
            s32_div ((signed_drop_bit 14 (cpuidex 0x8000001D n EAX) AND 0xFFF) + 1)
                    (threads_per_core s')"
    if vendor: "cpuidex 0x0 0x0 ECX = CPU_MANUFACTURER_AMD"
      and avail: "0x8000001D \<le> cpuidex 0x80000000 0x0 EAX"
      and changed: "cache_level_specs s' l \<noteq> cache_level_specs s l" for l
  proof -
    from vendor assms obtain s2 s3
      where c: "cpu_specs_amd_get_cores_info cpuidex ctx s1 = Inr s2"
        and k: "cpu_specs_amd_get_caches_info cpuidex ctx s2 = Inr s3"
        and i: "s' = cpu_specs_amd_get_instructions cpuidex ctx s3"
      by (auto simp: cpu_specs_init_def Let_def ctx_def s1_def split: sum.splits)
    have ext: "0x8000001D \<le> max_extended_func ctx"
      using avail by (simp add: ctx_def)
    have tpc: "threads_per_core s' = threads_per_core s2"
      using amd_caches_scalars [OF k] by (simp add: i amd_instructions_fields)
    have levels: "cache_level_specs s' = cache_level_specs s3"
      "cache_level_specs s2 = cache_level_specs s"
      using amd_cores_fields [OF c]
      by (simp_all add: i amd_instructions_fields s1_def common_instructions_fields)
    with changed have "cache_level_specs s3 l \<noteq> cache_level_specs s2 l"
      by simp
    from amd_caches_last [OF k ext this] show ?thesis
      by (simp add: levels tpc)
  qed
  show ?thesis
  proof (intro conjI impI allI)
    fix l
    assume "cpuidex 0x0 0x0 ECX = CPU_MANUFACTURER_INTEL"
      and "cache_level_specs s' l \<noteq> cache_level_specs s l"
    with intel show "attached_core_count (cache_level_specs s' l) <=s core_count s'"
      by blast
  next
    fix l
    assume "cpuidex 0x0 0x0 ECX = CPU_MANUFACTURER_AMD
            \<and> 0x8000001D \<le> cpuidex 0x80000000 0x0 EAX"
      and "cache_level_specs s' l \<noteq> cache_level_specs s l"
    with amd [of l] obtain n where "amd_last_descriptor cpuidex 0 l = Some n"
      and "attached_core_count (cache_level_specs s' l) =
            s32_div ((signed_drop_bit 14 (cpuidex 0x8000001D n EAX) AND 0xFFF) + 1)
                    (threads_per_core s')"
      by blast
    then show "\<exists>n. amd_last_descriptor cpuidex 0 l = Some n
                  \<and> attached_core_count (cache_level_specs s' l) =
                      s32_div ((signed_drop_bit 14 (cpuidex 0x8000001D n EAX) AND 0xFFF) + 1)
                              (threads_per_core s')
                  \<and> (attached_core_count (cache_level_specs s' l) <=s core_count s' \<longleftrightarrow>
                      s32_div ((signed_drop_bit 14 (cpuidex 0x8000001D n EAX) AND 0xFFF) + 1)
                              (threads_per_core s') <=s core_count s')"
      by (intro exI [of _ n]) simp
  qed
qed

theorem attached_core_count_bound_witness:
  "intel_sample 0x0 0x0 ECX = CPU_MANUFACTURER_INTEL
   \<and> (\<exists>s'. cpu_specs_init True intel_sample (cpu_specs_static ISA_x64) = Inr s'
          \<and> cache_level_specs s' L3 \<noteq> cache_level_specs (cpu_specs_static ISA_x64) L3
          \<and> attached_core_count (cache_level_specs s' L3) <=s core_count s'
          \<and> attached_core_count (cache_level_specs s' L3) = 4 \<and> core_count s' = 4)
   \<and> amd_zen_sample 0x0 0x0 ECX = CPU_MANUFACTURER_AMD
   \<and> 0x8000001D \<le> amd_zen_sample 0x80000000 0x0 EAX
   \<and> (\<exists>s'. cpu_specs_init True amd_zen_sample (cpu_specs_static ISA_x64) = Inr s'
          \<and> cache_level_specs s' L3 \<noteq> cache_level_specs (cpu_specs_static ISA_x64) L3
          \<and> amd_last_descriptor amd_zen_sample 0 L3 = Some 3
          \<and> attached_core_count (cache_level_specs s' L3) =
              s32_div ((signed_drop_bit 14 (amd_zen_sample 0x8000001D 3 EAX) AND 0xFFF) + 1)
                      (threads_per_core s')
          \<and> attached_core_count (cache_level_specs s' L3) <=s core_count s'
          \<and> attached_core_count (cache_level_specs s' L3) = 8 \<and> core_count s' = 8)
   \<and> amd_sample 0x0 0x0 ECX = CPU_MANUFACTURER_AMD
   \<and> 0x8000001D \<le> amd_sample 0x80000000 0x0 EAX
   \<and> (\<exists>s'. cpu_specs_init True amd_sample (cpu_specs_static ISA_x86) = Inr s'
          \<and> cache_level_specs s' L1 \<noteq> cache_level_specs (cpu_specs_static ISA_x86) L1
          \<and> amd_last_descriptor amd_sample 0 L1 = Some 0
          \<and> attached_core_count (cache_level_specs s' L1) =
              s32_div ((signed_drop_bit 14 (amd_sample 0x8000001D 0 EAX) AND 0xFFF) + 1)
                      (threads_per_core s')
          \<and> \<not> attached_core_count (cache_level_specs s' L1) <=s core_count s')"
proof -
  from intel_sample_run obtain s'
    where run: "cpu_specs_init True intel_sample (cpu_specs_static ISA_x64) = Inr s'"
      and l3: "cache_level_specs s' L3 = \<lparr>data_cache_size = 8388608, attached_core_count = 4\<rparr>"
      and cores: "core_count s' = 4"
    by blast
  have vendor: "intel_sample 0x0 0x0 ECX = CPU_MANUFACTURER_INTEL"
    by (simp add: sample_defs CPU_MANUFACTURER_INTEL_def)
  have changed: "cache_level_specs s' L3 \<noteq> cache_level_specs (cpu_specs_static ISA_x64) L3"
    by (simp add: l3 cpu_specs_static_def)
  from attached_core_count_bound [OF run] vendor changed
  have bound: "attached_core_count (cache_level_specs s' L3) <=s core_count s'"
    by blast
  from amd_zen_sample_run obtain z
    where zrun: "cpu_specs_init True amd_zen_sample (cpu_specs_static ISA_x64) = Inr z"
      and z3: "cache_level_specs z L3 = \<lparr>data_cache_size = 16777216, attached_core_count = 8\<rparr>"
      and zc: "core_count z = 8"
    by blast
  have zvendor: "amd_zen_sample 0x0 0x0 ECX = CPU_MANUFACTURER_AMD"
    and zext: "0x8000001D \<le> amd_zen_sample 0x80000000 0x0 EAX"
    by (simp_all add: sample_defs CPU_MANUFACTURER_AMD_def word_le_nat_alt)
  have zchanged: "cache_level_specs z L3 \<noteq> cache_level_specs (cpu_specs_static ISA_x64) L3"
    by (simp add: z3 cpu_specs_static_def)
  from attached_core_count_bound [OF zrun] zvendor zext zchanged
  obtain n where "amd_last_descriptor amd_zen_sample 0 L3 = Some n"
    and "attached_core_count (cache_level_specs z L3) =
          s32_div ((signed_drop_bit 14 (amd_zen_sample 0x8000001D n EAX) AND 0xFFF) + 1)
                  (threads_per_core z)"
    by blast
  with sample_last_descriptors(1)
  have zq: "attached_core_count (cache_level_specs z L3) =
          s32_div ((signed_drop_bit 14 (amd_zen_sample 0x8000001D 3 EAX) AND 0xFFF) + 1)
                  (threads_per_core z)"
    by simp
  have zbound: "attached_core_count (cache_level_specs z L3) <=s core_count z"
    by (simp add: z3 zc word_sle_eq)
  from amd_sample_run obtain a
    where arun: "cpu_specs_init True amd_sample (cpu_specs_static ISA_x86) = Inr a"
      and a1: "cache_level_specs a L1 = \<lparr>data_cache_size = 4096, attached_core_count = 2\<rparr>"
      and ac: "core_count a = 1"
    by blast
  have avendor: "amd_sample 0x0 0x0 ECX = CPU_MANUFACTURER_AMD"
    and aext: "0x8000001D \<le> amd_sample 0x80000000 0x0 EAX"
    by (simp_all add: sample_defs CPU_MANUFACTURER_AMD_def word_le_nat_alt)
  have achanged: "cache_level_specs a L1 \<noteq> cache_level_specs (cpu_specs_static ISA_x86) L1"
    by (simp add: a1 cpu_specs_static_def)
  from attached_core_count_bound [OF arun] avendor aext achanged
  obtain m where "amd_last_descriptor amd_sample 0 L1 = Some m"
    and "attached_core_count (cache_level_specs a L1) =
          s32_div ((signed_drop_bit 14 (amd_sample 0x8000001D m EAX) AND 0xFFF) + 1)
                  (threads_per_core a)"
    by blast
  with sample_last_descriptors(2)
  have aq: "attached_core_count (cache_level_specs a L1) =
          s32_div ((signed_drop_bit 14 (amd_sample 0x8000001D 0 EAX) AND 0xFFF) + 1)
                  (threads_per_core a)"
    by simp
  have abound: "\<not> attached_core_count (cache_level_specs a L1) <=s core_count a"
    by (simp add: a1 ac word_sle_eq)
  have s4: "attached_core_count (cache_level_specs s' L3) = 4"
    and z8: "attached_core_count (cache_level_specs z L3) = 8"
    by (simp_all add: l3 z3)
  note facts = vendor run changed bound s4 cores zvendor zext zrun zchanged zq zbound z8 zc
    avendor aext arun achanged aq abound sample_last_descriptors
  show ?thesis
    by (intro conjI exI [of _ s'] exI [of _ z] exI [of _ a]) (fact facts)+
qed

text \<open>
  C5. For a fixed assignment of registers to (leaf, subleaf) pairs, a second call of
  \<open>cpu_specs_init\<close> on the profile that a completed first call produced returns that
  profile again, and a second call of \<open>cpu_identity_init\<close> returns the identity the first
  one produced (on a \<open>cpu_identity\<close> with its 12-byte and 48-byte buffers).
\<close>

theorem detection_idempotent:
  "(cpu_specs_init available cpuidex s = Inr s' \<longrightarrow>
      cpu_specs_init available cpuidex s' = Inr s')
   \<and> (cpu_identity_sized c \<longrightarrow>
        cpu_identity_init available cpuidex (cpu_identity_init available cpuidex c) =
          cpu_identity_init available cpuidex c)"
  using cpu_specs_init_idem [of available cpuidex s s']
    cpu_identity_init_idem [of c available cpuidex]
  by blast

theorem detection_idempotent_witness:
  "(\<exists>s'. cpu_specs_init True intel_sample (cpu_specs_static ISA_x64) = Inr s'
        \<and> core_count s' = 4
        \<and> cpu_specs_init True intel_sample s' = Inr s')
   \<and> (\<exists>s'. cpu_specs_init True amd_zen_sample (cpu_specs_static ISA_x64) = Inr s'
        \<and> core_count s' = 8
        \<and> cpu_specs_init True amd_zen_sample s' = Inr s')
   \<and> cpu_identity_sized cpu_identity_static
   \<and> cpu_identity_init True intel_sample (cpu_identity_init True intel_sample cpu_identity_static) =
       cpu_identity_init True intel_sample cpu_identity_static
   \<and> family (cpu_identity_init True intel_sample cpu_identity_static) = 6"
proof -
  from intel_sample_run obtain s'
    where run: "cpu_specs_init True intel_sample (cpu_specs_static ISA_x64) = Inr s'"
      and cores: "core_count s' = 4"
    by blast
  from amd_zen_sample_run obtain z
    where zrun: "cpu_specs_init True amd_zen_sample (cpu_specs_static ISA_x64) = Inr z"
      and zc: "core_count z = 8"
    by blast
  have sized: "cpu_identity_sized cpu_identity_static"
    by (simp add: cpu_identity_sized_def cpu_identity_static_def char_array_def)
  have fam: "family (cpu_identity_init True intel_sample cpu_identity_static) = 6"
    by (simp add: identity_family sample_defs bit_field_def)
  from detection_idempotent [of True intel_sample "cpu_specs_static ISA_x64" s' cpu_identity_static]
    detection_idempotent [of True amd_zen_sample "cpu_specs_static ISA_x64" z cpu_identity_static]
    run cores zrun zc sized fam
  show ?thesis
    by (intro conjI exI [of _ s'] exI [of _ z]) simp_all
qed

end
